theory Spec2Isabelle
  imports Complex_Main "HOL-Library.AList"
begin

section \<open>JavaScript helpers\<close>

text \<open>
  JavaScript numbers are modelled by \<^typ>\<open>int\<close> where the source only counts or adds
  whole points, by \<^typ>\<open>real\<close> with exact arithmetic in the feature and graph
  computations, and as doubles with their rounding in the two estimators, whose
  constants sit on their own thresholds. \<open>Math.round x\<close> is \<open>floor (x + 0.5)\<close>.
\<close>

definition js_round :: "real \<Rightarrow> int" where
  "js_round x = \<lfloor>x + 1 / 2\<rfloor>"

text \<open>Decimal rendering of a whole number, as a template literal prints it.\<close>

fun dec_nat :: "nat \<Rightarrow> string" where
  "dec_nat n =
     (if n < 10 then [''0123456789'' ! n]
      else dec_nat (n div 10) @ [''0123456789'' ! (n mod 10)])"

definition js_int_str :: "int \<Rightarrow> string" where
  "js_int_str i = (if i < 0 then CHR ''-'' # dec_nat (nat (- i)) else dec_nat (nat i))"



section \<open>Data model\<close>

text \<open>
  A row of the \<open>events\<close> table. \<open>timestamp\<close> is the value of
  \<open>new Date(e.timestamp).getTime()\<close> in milliseconds; SQL \<open>NULL\<close> is \<open>None\<close>.
\<close>

record event =
  event_type :: string
  timestamp :: int
  frequency :: int
  port :: "int option"
  geo_location :: "string option"
  payload_size :: "int option"

text \<open>The object built by \<open>FeatureExtractionEngine.extractFeatures\<close>.\<close>

record features =
  event_frequency :: real
  time_between_events :: real
  event_rate_per_minute :: real
  event_rate_per_hour :: real
  unique_event_types :: real
  event_type_diversity :: real
  port_scan_entropy :: real
  geo_risk_score :: real
  unique_geolocations :: real
  unique_ports :: real
  avg_payload_size :: real
  payload_variance :: real
  event_count_zscore :: real
  confidence_score :: real
  blacklist_score :: real
  dns_entropy :: real

section \<open>Rule engine\<close>

text \<open>
  A rule object. \<open>condition\<close> is \<open>None\<close> when the property is missing; a predicate
  that throws returns \<open>None\<close>.
\<close>

type_synonym ('f, 'e) predicate = "'f \<Rightarrow> 'e list \<Rightarrow> bool option"

record ('f, 'e) rule =
  rule_id :: string
  rule_name :: string
  rule_severity :: string
  rule_score :: int
  condition :: "('f, 'e) predicate option"

record matched_rule =
  m_id :: string
  m_name :: string
  m_severity :: string
  m_score :: int

record rule_result =
  score :: int
  matchedRules :: "matched_rule list"
  explanation :: "string list"
  ruleCount :: "nat option"

datatype rule_error = InvalidRule

definition mk_rule ::
  "string \<Rightarrow> string \<Rightarrow> string \<Rightarrow> int \<Rightarrow> (features \<Rightarrow> event list \<Rightarrow> bool)
     \<Rightarrow> (features, event) rule" where
  "mk_rule i n s p c =
     \<lparr>rule_id = i, rule_name = n, rule_severity = s, rule_score = p,
      condition = Some (\<lambda>f ev. Some (c f ev))\<rparr>"

definition initializeRules :: "(features, event) rule list" where
  "initializeRules =
    [mk_rule ''brute_force_ssh'' ''SSH Brute Force Detection'' ''high'' 30
       (\<lambda>f events.
          let sshEvents = filter (\<lambda>e. event_type e = ''failed_login'' \<and> port e = Some 22) events;
              recentAttempts = foldl (\<lambda>sum e. sum + frequency e) 0 sshEvents
          in recentAttempts > 200),
     mk_rule ''port_scan_detection'' ''Port Scan Detection'' ''medium'' 25
       (\<lambda>f events. unique_ports f \<ge> 20 \<and> port_scan_entropy f > 3),
     mk_rule ''c2_communication'' ''Command and Control Communication'' ''critical'' 40
       (\<lambda>f events.
          let c2Events = filter (\<lambda>e. event_type e = ''c2_communication'') events
          in length c2Events > 0 \<or> (dns_entropy f > 4 \<and> event_frequency f > 50)),
     mk_rule ''multi_vector_attack'' ''Multi-Vector Attack'' ''critical'' 35
       (\<lambda>f events. unique_event_types f \<ge> 3),
     mk_rule ''data_exfiltration'' ''Data Exfiltration'' ''critical'' 45
       (\<lambda>f events.
          let exfilEvents = filter (\<lambda>e. event_type e = ''data_exfiltration'') events
          in length exfilEvents > 0 \<or> avg_payload_size f > 10000000),
     mk_rule ''geo_anomaly'' ''Geographic Anomaly'' ''medium'' 20
       (\<lambda>f events. geo_risk_score f > 70 \<or> unique_geolocations f > 10),
     mk_rule ''rapid_succession'' ''Rapid Event Succession'' ''medium'' 22
       (\<lambda>f events. time_between_events f < 2 \<and> event_frequency f > 100),
     mk_rule ''blacklist_match'' ''Blacklist Match'' ''high'' 35
       (\<lambda>f events. blacklist_score f > 50),
     mk_rule ''privilege_escalation'' ''Privilege Escalation Attempt'' ''high'' 38
       (\<lambda>f events.
          let privEscEvents =
                filter (\<lambda>e. event_type e = ''privilege_escalation''
                             \<or> event_type e = ''script_execution'') events
          in length privEscEvents > 0),
     mk_rule ''dns_tunneling'' ''DNS Tunneling'' ''high'' 33
       (\<lambda>f events.
          let dnsEvents = filter (\<lambda>e. event_type e = ''dns_query'') events
          in length dnsEvents > 100 \<and> dns_entropy f > 45 / 10),
     mk_rule ''scanning_activity'' ''Network Scanning Activity'' ''medium'' 20
       (\<lambda>f events.
          let scanEvents = filter (\<lambda>e. event_type e = ''port_scan'') events
          in length scanEvents > 10),
     mk_rule ''malware_detection'' ''Malware Detected'' ''critical'' 50
       (\<lambda>f events. list_ex (\<lambda>e. event_type e = ''malware_detected'') events)]"

text \<open>
  The guarded call \<open>try { if (rule.condition(features, events)) ... } catch\<close>: a missing
  or throwing predicate does not match.
\<close>

definition rule_fires :: "('f, 'e) rule \<Rightarrow> 'f \<Rightarrow> 'e list \<Rightarrow> bool" where
  "rule_fires r f ev =
     (case condition r of
        None \<Rightarrow> False
      | Some c \<Rightarrow> (case c f ev of None \<Rightarrow> False | Some b \<Rightarrow> b))"

definition explain :: "('f, 'e) rule \<Rightarrow> string" where
  "explain r =
     rule_name r @ '' ('' @ rule_severity r @ '', +'' @ js_int_str (rule_score r) @ '')''"

definition matched_of :: "('f, 'e) rule \<Rightarrow> matched_rule" where
  "matched_of r =
     \<lparr>m_id = rule_id r, m_name = rule_name r, m_severity = rule_severity r,
      m_score = rule_score r\<rparr>"

text \<open>The \<open>for (const rule of this.rules)\<close> loop with its three accumulators.\<close>

fun rules_loop ::
  "('f, 'e) rule list \<Rightarrow> 'f \<Rightarrow> 'e list \<Rightarrow> int \<times> matched_rule list \<times> string list
     \<Rightarrow> int \<times> matched_rule list \<times> string list" where
  "rules_loop [] f ev acc = acc"
| "rules_loop (r # rs) f ev (totalScore, matched, expl) =
     (if rule_fires r f ev
      then rules_loop rs f ev
             (totalScore + rule_score r, matched @ [matched_of r], expl @ [explain r])
      else rules_loop rs f ev (totalScore, matched, expl))"

text \<open>
  \<open>RuleEngine.evaluateRules\<close>. The first argument is the registry \<open>this.rules\<close>; the
  second is what \<open>extractFeatures\<close> resolved to (\<open>None\<close> for \<open>null\<close>), the third what
  \<open>getIndicatorEvents\<close> resolved to (\<open>None\<close> when the query was rejected, which the
  outer \<open>catch\<close> turns into the zero result).
\<close>

definition zero_result :: rule_result where
  "zero_result = \<lparr>score = 0, matchedRules = [], explanation = [], ruleCount = None\<rparr>"

definition evaluateRules ::
  "('f, 'e) rule list \<Rightarrow> 'f option \<Rightarrow> 'e list option \<Rightarrow> rule_result" where
  "evaluateRules rules fr er =
     (case er of
        None \<Rightarrow> zero_result
      | Some events \<Rightarrow>
          (case fr of
             None \<Rightarrow> zero_result
           | Some f \<Rightarrow>
               (let (totalScore, matched, expl) = rules_loop rules f events (0, [], []);
                    normalizedScore = min totalScore 100
                in \<lparr>score = normalizedScore, matchedRules = matched, explanation = expl,
                    ruleCount = Some (length matched)\<rparr>)))"

text \<open>\<open>RuleEngine.addRule\<close> returns the rule and the registry after the push, or throws.\<close>

definition addRule ::
  "('f, 'e) rule list \<Rightarrow> ('f, 'e) rule \<Rightarrow> rule_error + ('f, 'e) rule list \<times> ('f, 'e) rule" where
  "addRule rules r =
     (if rule_id r = [] \<or> rule_name r = [] \<or> condition r = None then Inl InvalidRule
      else Inr (rules @ [r], r))"


definition getRule :: "('f, 'e) rule list \<Rightarrow> string \<Rightarrow> ('f, 'e) rule option" where
  "getRule rules ruleId = find (\<lambda>r. rule_id r = ruleId) rules"

section \<open>Graph engine\<close>

text \<open>
  Rows of \<open>graph_nodes\<close> and \<open>graph_edges\<close> (the cached \<open>pagerank\<close>, \<open>centrality\<close>
  and \<open>cluster_id\<close> columns and the edge timestamp are never read by the engine), and
  the entries \<open>{target, type, weight}\<close> of the adjacency lists.
\<close>

record node =
  node_id :: string
  entity_type :: string
  entity_value :: string

record edge_row =
  edge_id :: string
  source_node :: string
  target_node :: string
  relation_type :: string
  edge_weight :: real

record neighbor =
  target :: string
  relation :: string
  weight :: real

text \<open>
  The engine's fields. A JavaScript \<open>Map\<close> is an association list in insertion order;
  \<open>Map.set\<close> is \<^const>\<open>AList.update\<close>, which overwrites in place or appends.
\<close>

record graph_state =
  nodes :: "(string \<times> node) list"
  graph :: "(string \<times> neighbor list) list"
  edges :: "edge_row list"

datatype db_error = StorageUnavailable

text \<open>
  The part of the relational store the graph engine writes to. A statement fails
  (its callback receives \<open>err\<close>) exactly when the store is down.
\<close>

record graph_db =
  db_up :: bool
  graph_nodes :: "node list"
  graph_edges :: "edge_row list"

text \<open>
  \<open>GraphEngine.addNode\<close>. \<open>nodeId\<close> is the identifier drawn by \<open>uuidv4()\<close> at entry.
  The result is the resolved identifier with the store and the engine afterwards, or
  the rejection.
\<close>

definition addNode ::
  "graph_db \<Rightarrow> graph_state \<Rightarrow> string \<Rightarrow> string \<Rightarrow> string
     \<Rightarrow> db_error + string \<times> graph_db \<times> graph_state" where
  "addNode d st nodeId val type =
     (if \<not> db_up d then Inl StorageUnavailable
      else
        (case find (\<lambda>r. entity_value r = val \<and> entity_type r = type) (graph_nodes d) of
           Some row \<Rightarrow> Inr (node_id row, d, st)
         | None \<Rightarrow>
             (let n = \<lparr>node_id = nodeId, entity_type = type, entity_value = val\<rparr>
              in Inr (nodeId,
                      d\<lparr>graph_nodes := graph_nodes d @ [n]\<rparr>,
                      st\<lparr>nodes := AList.update nodeId n (nodes st),
                         graph := AList.update nodeId [] (graph st)\<rparr>))))"

text \<open>\<open>GraphEngine.addEdge\<close>, with \<open>edgeId\<close> the identifier drawn at entry.\<close>

definition addEdge ::
  "graph_db \<Rightarrow> graph_state \<Rightarrow> string \<Rightarrow> string \<Rightarrow> string \<Rightarrow> string \<Rightarrow> real
     \<Rightarrow> db_error + string \<times> graph_db \<times> graph_state" where
  "addEdge d st edgeId sourceId targetId relationType w =
     (if \<not> db_up d then Inl StorageUnavailable
      else
        (let e = \<lparr>edge_id = edgeId, source_node = sourceId, target_node = targetId,
                  relation_type = relationType, edge_weight = w\<rparr>;
             old = (case map_of (graph st) sourceId of None \<Rightarrow> [] | Some ns \<Rightarrow> ns)
         in Inr (edgeId,
                 d\<lparr>graph_edges := graph_edges d @ [e]\<rparr>,
                 st\<lparr>edges := edges st @ [e],
                    graph := AList.update sourceId
                               (old @ [\<lparr>target = targetId, relation = relationType, weight = w\<rparr>])
                               (graph st)\<rparr>)))"

text \<open>\<open>this.graph.get(id) || []\<close>\<close>

definition neighbors_of :: "graph_state \<Rightarrow> string \<Rightarrow> neighbor list" where
  "neighbors_of st i = (case map_of (graph st) i of None \<Rightarrow> [] | Some ns \<Rightarrow> ns)"

text \<open>
  Plain objects keyed by node identifier (\<open>pagerank\<close>, \<open>centrality\<close>) are association
  lists; \<open>obj[k] || 0\<close> reads with default \<open>0\<close>, \<open>Object.assign\<close> writes every entry
  of its second argument into the first.
\<close>

definition obj_get :: "(string \<times> real) list \<Rightarrow> string \<Rightarrow> real" where
  "obj_get obj k = (case map_of obj k of None \<Rightarrow> 0 | Some v \<Rightarrow> v)"

definition obj_assign :: "(string \<times> real) list \<Rightarrow> (string \<times> real) list \<Rightarrow> (string \<times> real) list" where
  "obj_assign obj src = foldl (\<lambda>acc (k, v). AList.update k v acc) obj src"

text \<open>
  One pass of the outer \<open>for\<close> loop of \<open>calculatePageRank\<close>: the new rank of every
  node from the ranks of the nodes that have an edge to it. Inside the loop
  \<open>pagerank[otherId]\<close> is always present, so reading it with \<^const>\<open>obj_get\<close> never
  uses the default.
\<close>

definition pagerank_pass ::
  "graph_state \<Rightarrow> string list \<Rightarrow> real \<Rightarrow> (string \<times> real) list \<Rightarrow> (string \<times> real) list" where
  "pagerank_pass st nodeIds dampingFactor pagerank =
     map (\<lambda>nodeId.
            let sum =
                  foldl (\<lambda>sum otherId.
                           let neighbors = neighbors_of st otherId
                           in (case find (\<lambda>n. target n = nodeId) neighbors of
                                 None \<Rightarrow> sum
                               | Some pointsToNode \<Rightarrow>
                                   (let outDegree = length neighbors
                                    in if outDegree > 0
                                       then sum + obj_get pagerank otherId / real outDegree
                                       else sum)))
                        0 nodeIds
            in (nodeId, (1 - dampingFactor) / real (length nodeIds) + dampingFactor * sum))
         nodeIds"

fun pagerank_loop ::
  "nat \<Rightarrow> graph_state \<Rightarrow> string list \<Rightarrow> real \<Rightarrow> (string \<times> real) list \<Rightarrow> (string \<times> real) list" where
  "pagerank_loop 0 st nodeIds d pagerank = pagerank"
| "pagerank_loop (Suc k) st nodeIds d pagerank =
     pagerank_loop k st nodeIds d (obj_assign pagerank (pagerank_pass st nodeIds d pagerank))"

definition calculatePageRank :: "graph_state \<Rightarrow> nat \<Rightarrow> real \<Rightarrow> (string \<times> real) list" where
  "calculatePageRank st iterations dampingFactor =
     (let nodeIds = map fst (nodes st);
          numNodes = length nodeIds
      in if numNodes = 0 then []
         else pagerank_loop iterations st nodeIds dampingFactor
                (map (\<lambda>i. (i, 1 / real numNodes)) nodeIds))"

text \<open>The call \<open>this.calculatePageRank()\<close> with its default arguments.\<close>

definition calculatePageRank_default :: "graph_state \<Rightarrow> (string \<times> real) list" where
  "calculatePageRank_default st = calculatePageRank st 20 (85 / 100)"

definition calculateCentrality :: "graph_state \<Rightarrow> (string \<times> real) list" where
  "calculateCentrality st =
     (let nodeIds = map fst (nodes st);
          maxDegree = int (length nodeIds) - 1
      in map (\<lambda>nodeId.
                let neighbors = neighbors_of st nodeId
                in (nodeId, if maxDegree > 0 then real (length neighbors) / real_of_int maxDegree
                            else 0))
             nodeIds)"

definition calculateClusterDensity :: "graph_state \<Rightarrow> string \<Rightarrow> real" where
  "calculateClusterDensity st nodeId =
     (let neighbors = neighbors_of st nodeId
      in if length neighbors < 2 then 0
         else
           (let neighborIds = map target neighbors;
                connections =
                  foldl (\<lambda>c n1.
                           let n1Neighbors = neighbors_of st n1
                           in foldl (\<lambda>c n2.
                                       if n1 \<noteq> n2 \<and> list_ex (\<lambda>n. target n = n2) n1Neighbors
                                       then c + 1 else c)
                                    c neighborIds)
                        (0 :: nat) neighborIds;
                maxConnections = length neighbors * (length neighbors - 1)
            in if maxConnections > 0 then real connections / real maxConnections else 0))"

text \<open>
  \<open>GraphEngine.calculateGraphScore\<close> from the point where \<open>await this.buildGraph()\<close>
  has returned: \<open>st\<close> is the engine state the rebuild left (\<open>buildGraph\<close> catches the
  errors of its loaders and returns normally, so the computation goes on in either
  case). Nothing after that point throws. \<open>details\<close> is \<open>None\<close> for the empty object.
\<close>

record graph_details =
  d_pagerank :: real
  d_centrality :: real
  d_clusterDensity :: real
  d_neighbors :: nat

record graph_score =
  g_score :: int
  g_details :: "graph_details option"

definition calculateGraphScore :: "graph_state \<Rightarrow> string \<Rightarrow> graph_score" where
  "calculateGraphScore st indicatorValue =
     (case find (\<lambda>n. entity_value n = indicatorValue) (map snd (nodes st)) of
        None \<Rightarrow> \<lparr>g_score = 0, g_details = None\<rparr>
      | Some n \<Rightarrow>
          (let pagerank = calculatePageRank_default st;
               centrality = calculateCentrality st;
               clusterDensity = calculateClusterDensity st (node_id n);
               pagerankWeight = obj_get pagerank (node_id n) * 1000;
               centralityWeight = obj_get centrality (node_id n) * 100;
               densityWeight = clusterDensity * 100;
               sc = 4 / 10 * pagerankWeight + 3 / 10 * centralityWeight + 3 / 10 * densityWeight
           in \<lparr>g_score = min (js_round sc) 100,
               g_details = Some \<lparr>d_pagerank = obj_get pagerank (node_id n),
                                 d_centrality = obj_get centrality (node_id n),
                                 d_clusterDensity = clusterDensity,
                                 d_neighbors = length (neighbors_of st (node_id n))\<rparr>\<rparr>))"

text \<open>
  The \<open>while (queue.length > 0)\<close> loop of \<open>detectCommunities\<close>. \<open>visited\<close> and
  \<open>community\<close> are JavaScript \<open>Set\<close>s, kept as lists in insertion order.
\<close>

definition all_targets :: "graph_state \<Rightarrow> string set" where
  "all_targets st = (\<Union>ns \<in> set (map snd (graph st)). target ` set ns)"

function bfs ::
  "graph_state \<Rightarrow> string list \<Rightarrow> string list \<Rightarrow> string list \<Rightarrow> string list \<times> string list" where
  "bfs st [] visited community = (visited, community)"
| "bfs st (n # queue) visited community =
     (if n \<in> set visited then bfs st queue visited community
      else
        (let visited' = visited @ [n];
             pushed = map target
                        (filter (\<lambda>nb. target nb \<notin> set visited' \<and> weight nb > 1 / 2)
                                (neighbors_of st n))
         in bfs st (queue @ pushed) visited' (community @ [n])))"
  by pat_completeness auto


lemma finite_all_targets: "finite (all_targets st)"
  by (simp add: all_targets_def)

lemma neighbors_targets:
  assumes "nb \<in> set (neighbors_of st n)"
  shows "target nb \<in> all_targets st"
proof -
  from assms obtain ns where ns: "map_of (graph st) n = Some ns" "nb \<in> set ns"
    by (cases "map_of (graph st) n") (auto simp: neighbors_of_def)
  then have "(n, ns) \<in> set (graph st)" by (simp add: map_of_SomeD)
  then have "ns \<in> set (map snd (graph st))" by force
  with ns(2) show ?thesis unfolding all_targets_def by blast
qed

text \<open>
  The loop ends: a step either drops an already visited head from the queue, or visits
  an identifier among the finitely many that the queue and the adjacency lists hold.
\<close>

termination bfs
proof (relation
    "measures [\<lambda>(st, queue, visited, community). card ((set queue \<union> all_targets st) - set visited),
               \<lambda>(st, queue, visited, community). length queue]", goal_cases)
  case 1
  show ?case by simp
next
  case (2 st n queue visited community)
  have "(set queue \<union> all_targets st) - set visited
          \<subseteq> (set (n # queue) \<union> all_targets st) - set visited"
    by auto
  then have "card ((set queue \<union> all_targets st) - set visited)
               \<le> card ((set (n # queue) \<union> all_targets st) - set visited)"
    by (intro card_mono) (simp_all add: finite_all_targets)
  then show ?case by auto
next
  case (3 st n queue visited community visited' pushed)
  have sub: "set pushed \<subseteq> all_targets st"
    using 3 by (auto dest: neighbors_targets)
  have "(set (queue @ pushed) \<union> all_targets st) - set visited'
          \<subset> (set (n # queue) \<union> all_targets st) - set visited"
    using 3 sub by auto
  then have "card ((set (queue @ pushed) \<union> all_targets st) - set visited')
               < card ((set (n # queue) \<union> all_targets st) - set visited)"
    by (intro psubset_card_mono) (simp_all add: finite_all_targets)
  then show ?case by simp
qed

text \<open>The body of \<open>nodeIds.forEach(startNode => ...)\<close> and \<open>detectCommunities\<close>.\<close>

definition community_step ::
  "graph_state \<Rightarrow> string list \<times> string list list \<Rightarrow> string \<Rightarrow> string list \<times> string list list" where
  "community_step st acc startNode =
     (case acc of (visited, communities) \<Rightarrow>
        if startNode \<in> set visited then (visited, communities)
        else
          (case bfs st [startNode] visited [] of (visited', community) \<Rightarrow>
             (visited', if length community > 0 then communities @ [community]
                        else communities)))"

definition detectCommunities :: "graph_state \<Rightarrow> string list list" where
  "detectCommunities st = snd (foldl (community_step st) ([], []) (map fst (nodes st)))"

section \<open>Feature extraction\<close>

text \<open>
  The \<open>metadata\<close> column holds the text written by \<open>JSON.stringify\<close>; of the parsed
  object only the properties \<open>confidence\<close> and \<open>reputation\<close> are ever read. \<open>None\<close>
  is a missing property, and a missing object for the column itself.
\<close>

record meta =
  meta_confidence :: "real option"
  meta_reputation :: "real option"

record indicator =
  ind_id :: string
  ind_type :: string
  ind_value :: string
  ind_source :: string
  confidence :: real
  first_seen :: string
  last_seen :: string
  metadata :: "meta option"

text \<open>
  The default \<open>Array.prototype.sort()\<close> compares the elements as strings, by code
  unit.
\<close>

fun str_le :: "string \<Rightarrow> string \<Rightarrow> bool" where
  "str_le [] ys = True"
| "str_le (x # xs) [] = False"
| "str_le (x # xs) (y # ys) =
     (if (of_char x :: nat) < of_char y then True
      else if (of_char y :: nat) < of_char x then False
      else str_le xs ys)"

fun js_insert :: "int \<Rightarrow> int list \<Rightarrow> int list" where
  "js_insert x [] = [x]"
| "js_insert x (y # ys) =
     (if str_le (js_int_str x) (js_int_str y) then x # y # ys else y # js_insert x ys)"

definition js_sort :: "int list \<Rightarrow> int list" where
  "js_sort xs = foldr js_insert xs []"

text \<open>Truthiness of a nullable number and of a nullable string.\<close>

definition truthy_num :: "int option \<Rightarrow> bool" where
  "truthy_num x = (case x of None \<Rightarrow> False | Some n \<Rightarrow> n \<noteq> 0)"

definition truthy_str :: "string option \<Rightarrow> bool" where
  "truthy_str x = (case x of None \<Rightarrow> False | Some s \<Rightarrow> s \<noteq> [])"

text \<open>
  The counting loop \<open>counts[k] = (counts[k] || 0) + 1\<close> over a list of keys, and
  \<open>Object.values\<close> of the result. \<open>counts\<close> starts as the plain object \<open>{}\<close>, so a read
  of a key that names a member of \<open>Object.prototype\<close> finds the inherited member. For
  such a key the inherited function is truthy, \<open>+ 1\<close> appends to its text, and the
  entry is a string from then on (\<open>Text\<close>). For \<open>__proto__\<close> the read finds the prototype
  object and the write goes to the accessor, which ignores a string: no entry is made.
  Every other key is counted. JavaScript lists integer-like keys first, in ascending
  order; the values are only ever summed, so the model keeps insertion order.
\<close>

datatype count = Count real | Text

datatype key_kind = Plain | Inherited | ProtoAccessor

definition object_members :: "string list" where
  "object_members =
     [''constructor'', ''hasOwnProperty'', ''isPrototypeOf'', ''propertyIsEnumerable'',
      ''toLocaleString'', ''toString'', ''valueOf'', ''__defineGetter__'',
      ''__defineSetter__'', ''__lookupGetter__'', ''__lookupSetter__'']"

definition string_key :: "string \<Rightarrow> key_kind" where
  "string_key k =
     (if k = ''__proto__'' then ProtoAccessor
      else if k \<in> set object_members then Inherited else Plain)"

text \<open>Port numbers and single characters never name a member of \<open>Object.prototype\<close>.\<close>

definition plain_key :: "'k \<Rightarrow> key_kind" where
  "plain_key k = Plain"

definition count_keys :: "('k \<Rightarrow> key_kind) \<Rightarrow> 'k list \<Rightarrow> ('k \<times> count) list" where
  "count_keys kind ks =
     foldl (\<lambda>counts k.
              case kind k of
                ProtoAccessor \<Rightarrow> counts
              | Inherited \<Rightarrow> AList.update k Text counts
              | Plain \<Rightarrow>
                  AList.update k
                    (case map_of counts k of
                       None \<Rightarrow> Count 1
                     | Some (Count c) \<Rightarrow> Count (c + 1)
                     | Some Text \<Rightarrow> Text)
                    counts)
           [] ks"

text \<open>
  \<open>a + b\<close> in \<open>values.reduce((a, b) => a + b, 0)\<close>: a string operand makes the sum a
  string. In \<open>calculateEntropy\<close> a total that is a string is not \<open>=== 0\<close>, and dividing by
  it (its text is never a numeral) gives \<open>NaN\<close>, for which \<open>p > 0\<close> is false:
  \<open>entropy_term\<close> is the body of \<open>values.forEach\<close>.
\<close>

fun count_add :: "count \<Rightarrow> count \<Rightarrow> count" where
  "count_add (Count a) (Count b) = Count (a + b)"
| "count_add a b = Text"

fun entropy_term :: "count \<Rightarrow> count \<Rightarrow> real \<Rightarrow> real" where
  "entropy_term (Count n) (Count t) entropy =
     (let p = n / t in if p > 0 then entropy - p * log 2 p else entropy)"
| "entropy_term c t entropy = entropy"

definition calculateEntropy :: "count list \<Rightarrow> real" where
  "calculateEntropy vals =
     (let total = foldl count_add (Count 0) vals
      in if total = Count 0 then 0
         else foldl (\<lambda>entropy c. entropy_term c total entropy) 0 vals)"

definition calculateEventFrequency :: "event list \<Rightarrow> real" where
  "calculateEventFrequency events = real (length events)"

definition calculateTimeBetweenEvents :: "event list \<Rightarrow> real" where
  "calculateTimeBetweenEvents events =
     (if length events < 2 then 0
      else
        (let times = js_sort (map timestamp events);
             differences = map (\<lambda>i. real_of_int (times ! i - times ! (i - 1)) / 1000)
                               [1 ..< length times]
         in foldl (+) 0 differences / real (length differences)))"

text \<open>\<open>now\<close> is the value of \<open>new Date().getTime()\<close> at the call.\<close>

definition calculateEventRate :: "int \<Rightarrow> event list \<Rightarrow> int \<Rightarrow> real" where
  "calculateEventRate now events windowSeconds =
     (if length events = 0 then 0
      else
        (let windowMs = windowSeconds * 1000;
             recentEvents = filter (\<lambda>e. now - timestamp e < windowMs) events
         in real (length recentEvents) / real_of_int windowSeconds * 60))"

definition countUniqueEventTypes :: "event list \<Rightarrow> real" where
  "countUniqueEventTypes events = real (length (remdups (map event_type events)))"

definition calculateEventTypeDiversity :: "event list \<Rightarrow> real" where
  "calculateEventTypeDiversity events =
     (if length events = 0 then 0
      else calculateEntropy (map snd (count_keys string_key (map event_type events))))"

definition calculatePortEntropy :: "event list \<Rightarrow> real" where
  "calculatePortEntropy events =
     (let ports = map port (filter (\<lambda>e. truthy_num (port e)) events)
      in if length ports = 0 then 0
         else calculateEntropy (map snd (count_keys plain_key ports)))"

definition calculateGeoRiskScore :: "event list \<Rightarrow> real" where
  "calculateGeoRiskScore events =
     (let highRiskCountries = [''RU'', ''CN'', ''KP'', ''IR''];
          geoEvents = filter (\<lambda>e. truthy_str (geo_location e)) events
      in if length geoEvents = 0 then 0
         else
           (let highRiskCount =
                  length (filter (\<lambda>e. geo_location e \<in> Some ` set highRiskCountries) geoEvents)
            in real highRiskCount / real (length geoEvents) * 100))"

definition countUniqueGeolocations :: "event list \<Rightarrow> real" where
  "countUniqueGeolocations events =
     real (length (remdups (map geo_location (filter (\<lambda>e. truthy_str (geo_location e)) events))))"

definition countUniquePorts :: "event list \<Rightarrow> real" where
  "countUniquePorts events =
     real (length (remdups (map port (filter (\<lambda>e. truthy_num (port e)) events))))"

definition payloads_of :: "event list \<Rightarrow> real list" where
  "payloads_of events =
     map (\<lambda>e. case payload_size e of None \<Rightarrow> 0 | Some p \<Rightarrow> real_of_int p)
         (filter (\<lambda>e. truthy_num (payload_size e)) events)"

definition calculateAvgPayloadSize :: "event list \<Rightarrow> real" where
  "calculateAvgPayloadSize events =
     (let payloads = payloads_of events
      in if length payloads = 0 then 0
         else foldl (+) 0 payloads / real (length payloads))"

definition calculatePayloadVariance :: "event list \<Rightarrow> real" where
  "calculatePayloadVariance events =
     (let payloads = payloads_of events
      in if length payloads < 2 then 0
         else
           (let mean = calculateAvgPayloadSize events;
                squaredDiffs = map (\<lambda>p. (p - mean) ^ 2) payloads
            in foldl (+) 0 squaredDiffs / real (length payloads)))"

definition calculateZScore :: "real \<Rightarrow> real" where
  "calculateZScore v = (v - 50) / 20"

definition calculateBlacklistScore :: "indicator \<Rightarrow> real" where
  "calculateBlacklistScore ind =
     (let blacklistedValues = [''192.168.1.100'', ''malicious-c2.com'', ''10.0.0.50'']
      in if ind_value ind \<in> set blacklistedValues then 90
         else
           (case metadata ind of
              None \<Rightarrow> 0
            | Some m \<Rightarrow>
                (case meta_reputation m of
                   None \<Rightarrow> 0
                 | Some r \<Rightarrow> if r \<noteq> 0 then 100 - r else 0)))"

definition calculateDNSEntropy :: "indicator \<Rightarrow> event list \<Rightarrow> real" where
  "calculateDNSEntropy ind events =
     (if ind_type ind \<noteq> ''domain'' then 0
      else
        (let dnsEvents = filter (\<lambda>e. event_type e = ''dns_query'') events
         in if length dnsEvents = 0 then 0
            else calculateEntropy (map snd (count_keys plain_key (ind_value ind)))))"

text \<open>
  \<open>extractFeatures\<close>. The second and third arguments are the outcomes of the two
  queries: the rows of \<open>getIndicatorEvents\<close> (\<open>rows || []\<close>) and the row of
  \<open>getIndicator\<close>, \<open>None\<close> when no indicator has the identifier. A rejected query, and
  reading \<open>confidence\<close> of a missing row, land in the \<open>catch\<close>, which returns \<open>null\<close>.
  The two rate computations get the same reading \<open>now\<close> of the clock.
\<close>

definition extractFeatures ::
  "int \<Rightarrow> db_error + event list \<Rightarrow> db_error + indicator option \<Rightarrow> features option" where
  "extractFeatures now er ir =
     (case er of
        Inl err \<Rightarrow> None
      | Inr events \<Rightarrow>
          (case ir of
             Inl err \<Rightarrow> None
           | Inr None \<Rightarrow> None
           | Inr (Some ind) \<Rightarrow>
               Some \<lparr>event_frequency = calculateEventFrequency events,
                     time_between_events = calculateTimeBetweenEvents events,
                     event_rate_per_minute = calculateEventRate now events 60,
                     event_rate_per_hour = calculateEventRate now events 3600,
                     unique_event_types = countUniqueEventTypes events,
                     event_type_diversity = calculateEventTypeDiversity events,
                     port_scan_entropy = calculatePortEntropy events,
                     geo_risk_score = calculateGeoRiskScore events,
                     unique_geolocations = countUniqueGeolocations events,
                     unique_ports = countUniquePorts events,
                     avg_payload_size = calculateAvgPayloadSize events,
                     payload_variance = calculatePayloadVariance events,
                     event_count_zscore = calculateZScore (real (length events)),
                     confidence_score = confidence ind,
                     blacklist_score = calculateBlacklistScore ind,
                     dns_entropy = calculateDNSEntropy ind events\<rparr>))"

section \<open>Double arithmetic\<close>

text \<open>
  The estimators add and compare their own constants, and the sums fall on the
  thresholds (\<open>0.2 + 0.4\<close> against \<open>0.6\<close>), so here a number is an IEEE 754 double and
  every operation rounds as JavaScript does: to 53 significant bits, to nearest, ties
  to even. A finite double is the real number it denotes. \<open>expo x\<close> is the exponent
  of \<open>x > 0\<close>, that is \<open>floor (log2 x)\<close>; \<open>dbl x\<close> is the double nearest to \<open>x\<close>. The
  exponent range is not bounded: the estimators only combine constants between \<open>0.2\<close>
  and \<open>100\<close>, far from overflow and from subnormal numbers.
\<close>

fun ilog2 :: "nat \<Rightarrow> nat" where
  "ilog2 n = (if n < 2 then 0 else Suc (ilog2 (n div 2)))"

definition pow2 :: "int \<Rightarrow> real" where
  "pow2 e = (if e \<ge> 0 then 2 ^ nat e else 1 / 2 ^ nat (- e))"

definition expo :: "real \<Rightarrow> int" where
  "expo x =
     (if x \<ge> 1 then int (ilog2 (nat \<lfloor>x\<rfloor>))
      else (let k = ilog2 (nat \<lfloor>1 / x\<rfloor>)
            in if x * 2 ^ k = 1 then - int k else - int k - 1))"

definition round_even :: "real \<Rightarrow> int" where
  "round_even x =
     (let f = \<lfloor>x\<rfloor>; r = x - of_int f
      in if r < 1 / 2 then f
         else if r > 1 / 2 then f + 1
         else if even f then f else f + 1)"

definition dbl :: "real \<Rightarrow> real" where
  "dbl x =
     (if x = 0 then 0
      else (let u = pow2 (expo \<bar>x\<bar> - 52) in of_int (round_even (x / u)) * u))"

text \<open>The operations \<open>a + b\<close>, \<open>a - b\<close>, \<open>a * b\<close> and \<open>a / b\<close> (for \<open>b\<close> not zero) on doubles.\<close>

definition dadd :: "real \<Rightarrow> real \<Rightarrow> real" where
  "dadd a b = dbl (a + b)"

definition dsub :: "real \<Rightarrow> real \<Rightarrow> real" where
  "dsub a b = dbl (a - b)"

definition dmul :: "real \<Rightarrow> real \<Rightarrow> real" where
  "dmul a b = dbl (a * b)"

definition ddiv :: "real \<Rightarrow> real \<Rightarrow> real" where
  "ddiv a b = dbl (a / b)"

text \<open>
  An element of a numeric array: \<open>Fin x\<close> is the double nearest to \<open>x\<close> (what the
  literal \<open>x\<close> denotes), beside the two infinities and \<open>NaN\<close>. \<open>js_gt v t\<close> and
  \<open>js_ge v t\<close> are \<open>v > t\<close> and \<open>v >= t\<close> for a literal \<open>t\<close>.
\<close>

datatype jsnum = Fin real | PosInf | NegInf | NaN

fun js_gt :: "jsnum \<Rightarrow> real \<Rightarrow> bool" where
  "js_gt (Fin x) t = (dbl x > dbl t)"
| "js_gt PosInf t = True"
| "js_gt NegInf t = False"
| "js_gt NaN t = False"

fun js_ge :: "jsnum \<Rightarrow> real \<Rightarrow> bool" where
  "js_ge (Fin x) t = (dbl x \<ge> dbl t)"
| "js_ge PosInf t = True"
| "js_ge NegInf t = False"
| "js_ge NaN t = False"

section \<open>Anomaly estimator and classifier\<close>

text \<open>\<open>features[i] > t\<close> and \<open>features[i] >= t\<close>; an index out of range reads
  \<open>undefined\<close>, and every comparison with it is false.\<close>

definition gt_at :: "jsnum list \<Rightarrow> nat \<Rightarrow> real \<Rightarrow> bool" where
  "gt_at fs i t = (i < length fs \<and> js_gt (fs ! i) t)"

definition ge_at :: "jsnum list \<Rightarrow> nat \<Rightarrow> real \<Rightarrow> bool" where
  "ge_at fs i t = (i < length fs \<and> js_ge (fs ! i) t)"

text \<open>\<open>IsolationForest.predict\<close>: each \<open>if (c) anomalyScore += w\<close> in turn, \<open>w\<close> a
  literal.\<close>

definition bump :: "bool \<Rightarrow> real \<Rightarrow> real \<Rightarrow> real" where
  "bump c w acc = (if c then dadd acc (dbl w) else acc)"

definition predict :: "jsnum list \<Rightarrow> real" where
  "predict fs =
     (let anomalyScore = 0;
          anomalyScore = bump (gt_at fs 0 (7 / 10)) (3 / 10) anomalyScore;
          anomalyScore = bump (gt_at fs 1 (6 / 10)) (25 / 100) anomalyScore;
          anomalyScore = bump (gt_at fs 2 (5 / 10)) (2 / 10) anomalyScore;
          anomalyScore = bump (gt_at fs 3 (6 / 10) \<or> gt_at fs 4 (6 / 10)) (25 / 100) anomalyScore;
          anomalyScore = bump (gt_at fs 5 (7 / 10)) (3 / 10) anomalyScore;
          anomalyScore = bump (gt_at fs 6 (5 / 10)) (4 / 10) anomalyScore;
          anomalyScore = bump (gt_at fs 7 (7 / 10)) (3 / 10) anomalyScore;
          anomalyScore = bump (gt_at fs 8 (6 / 10)) (2 / 10) anomalyScore;
          anomalyScore = bump (gt_at fs 9 (8 / 10)) (25 / 100) anomalyScore
      in min anomalyScore 1)"

text \<open>\<open>RandomForestClassifier.predictProba\<close>: each tree adds its estimate (a literal)
  and one unit of weight.\<close>

definition tree :: "bool \<Rightarrow> real \<Rightarrow> real \<times> nat \<Rightarrow> real \<times> nat" where
  "tree c p acc = (if c then (dadd (fst acc) (dbl p), snd acc + 1) else acc)"

definition predictProba :: "jsnum list \<Rightarrow> real" where
  "predictProba fs =
     (let acc = (0, 0);
          acc = tree (gt_at fs 6 (4 / 10)) (8 / 10) acc;
          acc = tree (gt_at fs 0 (5 / 10) \<and> gt_at fs 1 (5 / 10)) (7 / 10) acc;
          acc = tree (gt_at fs 5 (6 / 10) \<and> ge_at fs 2 (3 / 10)) (75 / 100) acc;
          acc = tree (gt_at fs 4 (5 / 10) \<or> gt_at fs 7 (6 / 10)) (65 / 100) acc;
          acc = tree (gt_at fs 3 (4 / 10) \<and> gt_at fs 1 (4 / 10)) (7 / 10) acc;
          acc = tree (gt_at fs 9 (7 / 10)) (6 / 10) acc;
          acc = tree (gt_at fs 8 (5 / 10)) (55 / 100) acc;
          acc = tree (gt_at fs 6 (3 / 10) \<and> gt_at fs 5 (5 / 10)) (85 / 100) acc;
          acc = tree (gt_at fs 0 (6 / 10) \<and> (gt_at fs 3 (5 / 10) \<or> gt_at fs 4 (5 / 10)))
                     (75 / 100) acc
      in if snd acc = 0 then 0 else min (ddiv (fst acc) (real (snd acc))) 1)"

record anomaly_result =
  a_score :: real
  isAnomaly :: bool
  a_confidence :: "real option"

record classification_result =
  malicious_probability :: real
  classification :: string
  c_confidence :: "real option"

record ml_result =
  ml_score :: int
  anomaly :: anomaly_result
  classification_of :: classification_result

text \<open>
  \<open>detectAnomaly\<close> and \<open>classifyThreat\<close> on what \<open>createFeatureVector\<close> resolved to:
  \<open>None\<close> for \<open>null\<close>, else \<open>Object.values\<close> of the vector.
\<close>

definition detectAnomaly :: "jsnum list option \<Rightarrow> anomaly_result" where
  "detectAnomaly fv =
     (case fv of
        None \<Rightarrow> \<lparr>a_score = 0, isAnomaly = False, a_confidence = None\<rparr>
      | Some fs \<Rightarrow>
          (let anomalyScore = predict fs
           in \<lparr>a_score = anomalyScore, isAnomaly = (anomalyScore > dbl (6 / 10)),
               a_confidence = Some anomalyScore\<rparr>))"

definition classifyThreat :: "jsnum list option \<Rightarrow> classification_result" where
  "classifyThreat fv =
     (case fv of
        None \<Rightarrow> \<lparr>malicious_probability = 0, classification = ''benign'', c_confidence = None\<rparr>
      | Some fs \<Rightarrow>
          (let probability = predictProba fs
           in \<lparr>malicious_probability = probability,
               classification = (if probability > dbl (5 / 10) then ''malicious'' else ''benign''),
               c_confidence = Some (dmul \<bar>dsub probability (dbl (5 / 10))\<bar> 2)\<rparr>))"

text \<open>
  \<open>calculateMLScore\<close>. Its two callees each build the feature vector anew; \<open>fvA\<close> and
  \<open>fvC\<close> are the vectors they obtained. \<open>Math.round\<close> of a double is exact.
\<close>

definition calculateMLScore :: "jsnum list option \<Rightarrow> jsnum list option \<Rightarrow> ml_result" where
  "calculateMLScore fvA fvC =
     (let anomalyResult = detectAnomaly fvA;
          classificationResult = classifyThreat fvC;
          combinedScore =
            dmul (dadd (dmul (malicious_probability classificationResult) (dbl (6 / 10)))
                       (dmul (a_score anomalyResult) (dbl (4 / 10))))
                 100
      in \<lparr>ml_score = js_round combinedScore, anomaly = anomalyResult,
          classification_of = classificationResult\<rparr>)"

section \<open>Ingestion\<close>





section \<open>Example inputs\<close>

text \<open>Rules a caller may pass to \<open>addRule\<close>, and an indicator without events.\<close>

definition allow_rule :: "(features, event) rule" where
  "allow_rule = mk_rule ''trusted_source'' ''Trusted Source'' ''low'' (- 20) (\<lambda>f events. True)"



definition quiet_indicator :: indicator where
  "quiet_indicator =
     \<lparr>ind_id = ''i1'', ind_type = ''IP'', ind_value = ''203.0.113.7'', ind_source = ''syslog'',
      confidence = 5 / 10, first_seen = ''2024-01-01T00:00:00.000Z'',
      last_seen = ''2024-01-01T00:00:00.000Z'', metadata = None\<rparr>"

text \<open>Nodes of the same entity, and a small store and engine.\<close>

definition same_entity :: "string \<Rightarrow> string \<Rightarrow> node \<Rightarrow> bool" where
  "same_entity val type r = (entity_value r = val \<and> entity_type r = type)"

definition empty_engine :: graph_state where
  "empty_engine = \<lparr>nodes = [], graph = [], edges = []\<rparr>"

definition small_db :: graph_db where
  "small_db = \<lparr>db_up = True,
     graph_nodes = [\<lparr>node_id = ''n1'', entity_type = ''IP'', entity_value = ''10.0.0.50''\<rparr>],
     graph_edges = []\<rparr>"

definition small_db_after :: graph_db where
  "small_db_after = small_db\<lparr>graph_nodes := graph_nodes small_db @
     [\<lparr>node_id = ''n2'', entity_type = ''domain'', entity_value = ''evil.example''\<rparr>]\<rparr>"

definition engine_after :: graph_state where
  "engine_after = \<lparr>nodes = [(''n2'', \<lparr>node_id = ''n2'', entity_type = ''domain'',
                                       entity_value = ''evil.example''\<rparr>)],
                   graph = [(''n2'', [])], edges = []\<rparr>"





text \<open>
  Feature vectors: one that fires only the tests on event types and on the denylist,
  and one that fires only the tests on payload variance and on rapid events.
\<close>

definition two_test_vector :: "jsnum list" where
  "two_test_vector =
     [Fin 0, Fin 0, Fin (6 / 10), Fin 0, Fin 0, Fin 0, Fin (6 / 10), Fin 0, Fin 0, Fin 0]"

definition rapid_payload_vector :: "jsnum list" where
  "rapid_payload_vector =
     [Fin 0, Fin 0, Fin 0, Fin 0, Fin 0, Fin 0, Fin 0, Fin 0, Fin (55 / 100), Fin (9 / 10)]"

text \<open>Two engine states: two nodes without edges, and two nodes linked both ways.\<close>

definition pair_engine :: graph_state where
  "pair_engine =
     \<lparr>nodes = [(''a'', \<lparr>node_id = ''a'', entity_type = ''IP'', entity_value = ''198.51.100.1''\<rparr>),
               (''b'', \<lparr>node_id = ''b'', entity_type = ''IP'', entity_value = ''198.51.100.2''\<rparr>)],
      graph = [(''a'', []), (''b'', [])],
      edges = []\<rparr>"

definition ring_engine :: graph_state where
  "ring_engine =
     \<lparr>nodes = [(''a'', \<lparr>node_id = ''a'', entity_type = ''IP'', entity_value = ''198.51.100.1''\<rparr>),
               (''b'', \<lparr>node_id = ''b'', entity_type = ''domain'', entity_value = ''evil.example''\<rparr>)],
      graph = [(''a'', [\<lparr>target = ''b'', relation = ''resolves_to'', weight = 7 / 10\<rparr>]),
               (''b'', [\<lparr>target = ''a'', relation = ''communicates_with'', weight = 6 / 10\<rparr>])],
      edges = [\<lparr>edge_id = ''e1'', source_node = ''a'', target_node = ''b'',
                 relation_type = ''resolves_to'', edge_weight = 7 / 10\<rparr>,
               \<lparr>edge_id = ''e2'', source_node = ''b'', target_node = ''a'',
                 relation_type = ''communicates_with'', edge_weight = 6 / 10\<rparr>]\<rparr>"

text \<open>
  A snapshot in which every node has an outgoing edge, every edge leads to a node of
  the snapshot, and no node has two edges to the same target; and the share of the rank
  of \<open>u\<close> that one pass hands to \<open>v\<close>.
\<close>

definition closed_simple :: "graph_state \<Rightarrow> bool" where
  "closed_simple st =
     (distinct (map fst (nodes st)) \<and>
      list_all (\<lambda>u. neighbors_of st u \<noteq> []
                   \<and> distinct (map target (neighbors_of st u))
                   \<and> list_all (\<lambda>nb. target nb \<in> set (map fst (nodes st))) (neighbors_of st u))
               (map fst (nodes st)))"

definition inflow :: "graph_state \<Rightarrow> (string \<times> real) list \<Rightarrow> string \<Rightarrow> string \<Rightarrow> real" where
  "inflow st pr v u =
     (if v \<in> target ` set (neighbors_of st u)
      then obj_get pr u / real (length (neighbors_of st u)) else 0)"


text \<open>
  The edges the traversal follows, as a relation; the invariant of the loop over the
  start nodes (\<open>V\<close> the visited list, \<open>Cs\<close> the communities so far, \<open>S\<close> the start nodes
  tried); and a snapshot with three nodes.
\<close>

definition heavy_edges :: "graph_state \<Rightarrow> (string \<times> string) set" where
  "heavy_edges st =
     {(u, v). \<exists>nb \<in> set (neighbors_of st u). target nb = v \<and> weight nb > 1 / 2}"

text \<open>The targets of the edges of weight above \<open>0.5\<close> in the adjacency lists.\<close>

definition heavy_targets :: "graph_state \<Rightarrow> string set" where
  "heavy_targets st =
     (\<Union>ns \<in> set (map snd (graph st)). target ` set (filter (\<lambda>nb. weight nb > 1 / 2) ns))"

definition communities_inv ::
  "graph_state \<Rightarrow> string set \<Rightarrow> string list \<Rightarrow> string list list \<Rightarrow> bool" where
  "communities_inv st S V Cs =
     (V = concat Cs \<and> distinct V \<and> [] \<notin> set Cs
      \<and> heavy_edges st `` set V \<subseteq> set V
      \<and> (\<forall>i < length Cs.
            hd (Cs ! i) \<in> S
          \<and> set (Cs ! i) = (heavy_edges st)\<^sup>* `` {hd (Cs ! i)} - set (concat (take i Cs))))"

text \<open>A snapshot with one node and an edge to an identifier that is no node.\<close>

definition ghost_engine :: graph_state where
  "ghost_engine =
     \<lparr>nodes = [(''a'', \<lparr>node_id = ''a'', entity_type = ''IP'', entity_value = ''198.51.100.1''\<rparr>)],
      graph = [(''a'', [\<lparr>target = ''ghost'', relation = ''communicates_with'', weight = 9 / 10\<rparr>])],
      edges = [\<lparr>edge_id = ''e1'', source_node = ''a'', target_node = ''ghost'',
                 relation_type = ''communicates_with'', edge_weight = 9 / 10\<rparr>]\<rparr>"

definition trio_engine :: graph_state where
  "trio_engine =
     \<lparr>nodes = [(''a'', \<lparr>node_id = ''a'', entity_type = ''IP'', entity_value = ''198.51.100.1''\<rparr>),
               (''b'', \<lparr>node_id = ''b'', entity_type = ''IP'', entity_value = ''198.51.100.2''\<rparr>),
               (''c'', \<lparr>node_id = ''c'', entity_type = ''domain'', entity_value = ''evil.example''\<rparr>)],
      graph = [(''a'', [\<lparr>target = ''b'', relation = ''communicates_with'', weight = 6 / 10\<rparr>]),
               (''b'', [\<lparr>target = ''c'', relation = ''resolves_to'', weight = 4 / 10\<rparr>]),
               (''c'', [\<lparr>target = ''a'', relation = ''resolves_to'', weight = 9 / 10\<rparr>])],
      edges = [\<lparr>edge_id = ''e1'', source_node = ''a'', target_node = ''b'',
                 relation_type = ''communicates_with'', edge_weight = 6 / 10\<rparr>,
               \<lparr>edge_id = ''e2'', source_node = ''b'', target_node = ''c'',
                 relation_type = ''resolves_to'', edge_weight = 4 / 10\<rparr>,
               \<lparr>edge_id = ''e3'', source_node = ''c'', target_node = ''a'',
                 relation_type = ''resolves_to'', edge_weight = 9 / 10\<rparr>]\<rparr>"

text \<open>Two events, the first with a type named like a member of \<open>Object.prototype\<close>.\<close>

definition inherited_type_events :: "event list" where
  "inherited_type_events =
     [\<lparr>event_type = ''valueOf'', timestamp = 1700000000000, frequency = 1,
       port = None, geo_location = None, payload_size = None\<rparr>,
      \<lparr>event_type = ''port_scan'', timestamp = 1700000060000, frequency = 1,
       port = None, geo_location = None, payload_size = None\<rparr>]"

section \<open>Properties of the rule engine\<close>

lemma rules_loop_acc:
  "rules_loop rs f ev (t, m, x) =
     (t + sum_list (map rule_score (filter (\<lambda>r. rule_fires r f ev) rs)),
      m @ map matched_of (filter (\<lambda>r. rule_fires r f ev) rs),
      x @ map explain (filter (\<lambda>r. rule_fires r f ev) rs))"
  by (induction rs arbitrary: t m x) simp_all

lemma evaluateRules_score:
  "score (evaluateRules rs (Some f) (Some ev)) =
     min (sum_list (map rule_score (filter (\<lambda>r. rule_fires r f ev) rs))) 100"
  by (simp add: evaluateRules_def rules_loop_acc)

lemma evaluateRules_matched:
  "map m_id (matchedRules (evaluateRules rs (Some f) (Some ev))) =
     map rule_id (filter (\<lambda>r. rule_fires r f ev) rs)"
  by (simp add: evaluateRules_def rules_loop_acc matched_of_def comp_def)

lemma evaluateRules_le_100: "score (evaluateRules rs fr er) \<le> 100"
  by (cases er; cases fr) (simp_all add: evaluateRules_def zero_result_def rules_loop_acc)

lemma evaluateRules_nonneg:
  assumes "\<forall>r \<in> set rs. 0 \<le> rule_score r"
  shows "0 \<le> score (evaluateRules rs fr er)"
proof -
  have "0 \<le> sum_list (map rule_score (filter P rs))" for P
    using assms by (intro sum_list_nonneg) auto
  then show ?thesis
    by (cases er; cases fr) (simp_all add: evaluateRules_def zero_result_def rules_loop_acc)
qed

text \<open>
  \<^bold>\<open>C1.\<close> The score of a rule evaluation should lie in \<open>[0,100]\<close> for every registry,
  and the source says so itself (\<open>// Normalize score to 0-100\<close>). The code returns the
  sum of the points of the rules that fire, cut off at 100 from above only
  (\<open>evaluateRules_score\<close>, \<open>evaluateRules_matched\<close>, \<open>evaluateRules_le_100\<close>); it applies
  no lower bound, and \<open>addRule\<close> accepts any point value. With the default registry
  extended through \<open>addRule\<close> by a rule worth \<open>-20\<close> points that always fires, an
  indicator without events scores \<open>-20\<close>.
\<close>

theorem evaluateRules_negative_score:
  "addRule initializeRules allow_rule = Inr (initializeRules @ [allow_rule], allow_rule)
   \<and> score (evaluateRules (initializeRules @ [allow_rule])
              (extractFeatures 0 (Inr []) (Inr (Some quiet_indicator))) (Some [])) = - 20"
  by (simp add: addRule_def allow_rule_def mk_rule_def evaluateRules_score rule_fires_def
       initializeRules_def extractFeatures_def quiet_indicator_def calculateEventFrequency_def
       calculateTimeBetweenEvents_def calculateEventRate_def countUniqueEventTypes_def
       calculateEventTypeDiversity_def calculatePortEntropy_def calculateGeoRiskScore_def
       countUniqueGeolocations_def countUniquePorts_def calculateAvgPayloadSize_def
       calculatePayloadVariance_def calculateZScore_def calculateBlacklistScore_def
       calculateDNSEntropy_def payloads_of_def)

section \<open>Adding and removing rules\<close>






section \<open>Node upsert\<close>

lemma find_append_None: "find P xs = None \<Longrightarrow> find P (xs @ ys) = find P ys"
  by (induction xs) (auto split: if_splits)

lemma find_filter_hd: "find P xs = Some x \<Longrightarrow> filter P xs \<noteq> []"
  by (induction xs) (auto split: if_splits)

text \<open>
  \<^bold>\<open>C7.\<close> Node upsert is idempotent. If \<open>addNode\<close> resolves for a pair of value and
  type, a second call with the same pair (whatever fresh identifier it draws) resolves
  to the same identifier and leaves the store and the engine as they are. The first
  call leaves exactly one row for the pair if there was none and adds none otherwise,
  and it never touches the rows of another pair.
\<close>

theorem addNode_idempotent:
  assumes "addNode d st i1 val type = Inr (id1, d1, st1)"
  shows "addNode d1 st1 i2 val type = Inr (id1, d1, st1)
       \<and> length (filter (same_entity val type) (graph_nodes d1))
           = max 1 (length (filter (same_entity val type) (graph_nodes d)))
       \<and> (\<forall>v t. (v, t) \<noteq> (val, type) \<longrightarrow>
             filter (same_entity v t) (graph_nodes d1) = filter (same_entity v t) (graph_nodes d))"
proof (cases "find (\<lambda>r. entity_value r = val \<and> entity_type r = type) (graph_nodes d)")
  case None
  then have nomatch: "filter (same_entity val type) (graph_nodes d) = []"
    by (auto simp: find_None_iff filter_empty_conv same_entity_def)
  from assms None have up: "db_up d" and id1: "id1 = i1"
    and d1: "d1 = d\<lparr>graph_nodes := graph_nodes d @ [\<lparr>node_id = i1, entity_type = type, entity_value = val\<rparr>]\<rparr>"
    by (auto simp: addNode_def Let_def split: if_splits)
  have "find (\<lambda>r. entity_value r = val \<and> entity_type r = type) (graph_nodes d1)
          = Some \<lparr>node_id = i1, entity_type = type, entity_value = val\<rparr>"
    using None by (simp add: d1 find_append_None)
  then have "addNode d1 st1 i2 val type = Inr (id1, d1, st1)"
    using up by (simp add: addNode_def d1 id1)
  moreover have "length (filter (same_entity val type) (graph_nodes d1)) = 1"
    using nomatch by (simp add: d1 same_entity_def)
  moreover have "\<forall>v t. (v, t) \<noteq> (val, type) \<longrightarrow>
      filter (same_entity v t) (graph_nodes d1) = filter (same_entity v t) (graph_nodes d)"
    by (auto simp: d1 same_entity_def)
  ultimately show ?thesis using nomatch by simp
next
  case (Some row)
  from assms Some have up: "db_up d" and id1: "id1 = node_id row" and d1: "d1 = d" and st1: "st1 = st"
    by (auto simp: addNode_def split: if_splits)
  have "filter (same_entity val type) (graph_nodes d) \<noteq> []"
    using find_filter_hd [OF Some] by (simp add: same_entity_def [abs_def])
  then have "1 \<le> length (filter (same_entity val type) (graph_nodes d))"
    by (cases "filter (same_entity val type) (graph_nodes d)") simp_all
  moreover have "addNode d st i2 val type = Inr (node_id row, d, st)"
    using Some up by (simp add: addNode_def)
  ultimately show ?thesis by (simp add: d1 st1 id1 max_def)
qed

theorem addNode_idempotent_witness:
  "addNode small_db empty_engine ''n2'' ''evil.example'' ''domain''
     = Inr (''n2'', small_db_after, engine_after)
   \<and> addNode small_db_after engine_after ''n3'' ''evil.example'' ''domain''
     = Inr (''n2'', small_db_after, engine_after)
   \<and> length (filter (same_entity ''evil.example'' ''domain'') (graph_nodes small_db_after)) = 1"
proof -
  have h: "addNode small_db empty_engine ''n2'' ''evil.example'' ''domain''
     = Inr (''n2'', small_db_after, engine_after)"
    by (simp add: addNode_def small_db_def empty_engine_def small_db_after_def
          engine_after_def Let_def)
  have "filter (same_entity ''evil.example'' ''domain'') (graph_nodes small_db) = []"
    by (simp add: small_db_def same_entity_def)
  with addNode_idempotent [OF h, of "''n3''"] h show ?thesis by simp
qed

section \<open>Indicator confidence\<close>



section \<open>Combined estimator score\<close>

lemma pow2_pos: "0 < pow2 e"
  by (simp add: pow2_def)

lemma round_even_nonneg: "0 \<le> x \<Longrightarrow> 0 \<le> round_even x"
  by (auto simp: round_even_def Let_def)

lemma dbl_nonneg:
  assumes "0 \<le> x"
  shows "0 \<le> dbl x"
proof (cases "x = 0")
  case True
  then show ?thesis by (simp add: dbl_def)
next
  case False
  define u where "u = pow2 (expo \<bar>x\<bar> - 52)"
  have u: "0 < u" unfolding u_def by (rule pow2_pos)
  then have "0 \<le> x / u" using assms by simp
  then have "0 \<le> round_even (x / u)" by (rule round_even_nonneg)
  then have "0 \<le> real_of_int (round_even (x / u)) * u" using u by simp
  then show ?thesis using False by (simp add: dbl_def Let_def u_def)
qed

lemma bump_bounds: "0 \<le> w \<Longrightarrow> 0 \<le> acc \<Longrightarrow> 0 \<le> bump c w acc"
  by (simp add: bump_def dadd_def dbl_nonneg)

lemma predict_bounds: "0 \<le> predict fs \<and> predict fs \<le> 1"
proof -
  have "0 \<le> predict fs"
    unfolding predict_def Let_def by (intro min.boundedI bump_bounds) simp_all
  moreover have "predict fs \<le> 1"
    by (simp add: predict_def Let_def)
  ultimately show ?thesis by simp
qed

text \<open>
  \<^bold>\<open>C5.\<close> The combined score of \<open>calculateMLScore\<close> is \<open>round(100 (0.6 p + 0.4 a))\<close>,
  evaluated in double arithmetic as the code evaluates it, where \<open>p\<close> is the
  classifier's probability and \<open>a\<close> the anomaly score of the result; for a feature
  vector these are \<open>predictProba\<close> and \<open>predict\<close> of it. The anomaly score lies in
  \<open>[0,1]\<close>, and the anomaly flag is set exactly when the score exceeds the double
  \<open>0.6\<close>.
\<close>

theorem calculateMLScore_combined:
  "ml_score (calculateMLScore fvA fvC)
     = js_round (dmul 100
         (dadd (dmul (dbl (6 / 10))
                     (malicious_probability (classification_of (calculateMLScore fvA fvC))))
               (dmul (dbl (4 / 10)) (a_score (anomaly (calculateMLScore fvA fvC))))))
   \<and> anomaly (calculateMLScore fvA fvC) = detectAnomaly fvA
   \<and> classification_of (calculateMLScore fvA fvC) = classifyThreat fvC
   \<and> malicious_probability (classifyThreat (Some fs)) = predictProba fs
   \<and> a_score (detectAnomaly (Some fs)) = predict fs
   \<and> 0 \<le> a_score (detectAnomaly fvA) \<and> a_score (detectAnomaly fvA) \<le> 1
   \<and> isAnomaly (detectAnomaly fvA) = (a_score (detectAnomaly fvA) > dbl (6 / 10))"
proof -
  have "0 \<le> a_score (detectAnomaly fvA) \<and> a_score (detectAnomaly fvA) \<le> 1"
    using predict_bounds by (cases fvA) (simp_all add: detectAnomaly_def Let_def)
  moreover have pos: "(0 :: real) < dbl (6 / 10)"
    by code_simp
  have "isAnomaly (detectAnomaly fvA) = (a_score (detectAnomaly fvA) > dbl (6 / 10))"
    using pos by (cases fvA) (simp_all add: detectAnomaly_def Let_def)
  moreover have "ml_score (calculateMLScore fvA fvC)
     = js_round (dmul 100
         (dadd (dmul (dbl (6 / 10))
                     (malicious_probability (classification_of (calculateMLScore fvA fvC))))
               (dmul (dbl (4 / 10)) (a_score (anomaly (calculateMLScore fvA fvC))))))"
    by (simp add: calculateMLScore_def Let_def dmul_def mult.commute)
  ultimately show ?thesis
    by (simp add: calculateMLScore_def detectAnomaly_def classifyThreat_def Let_def)
qed

text \<open>
  Two evaluations. In the first, \<open>0.2 + 0.4\<close> is the double above \<open>0.6\<close>, so the
  vector is flagged; in the second, the score before rounding is the double below
  \<open>44.5\<close>.
\<close>

lemma calculateMLScore_on_threshold:
  "predict two_test_vector = 1351079888211149 / 2251799813685248
   \<and> dbl (6 / 10) = 5404319552844595 / 9007199254740992
   \<and> isAnomaly (detectAnomaly (Some two_test_vector))
   \<and> ml_score (calculateMLScore (Some two_test_vector) (Some two_test_vector)) = 72"
  by code_simp

lemma calculateMLScore_below_half:
  "predict rapid_payload_vector = 1 / 4
   \<and> predictProba rapid_payload_vector = 2589569785738035 / 4503599627370496
   \<and> \<not> isAnomaly (detectAnomaly (Some rapid_payload_vector))
   \<and> ml_score (calculateMLScore (Some rapid_payload_vector) (Some rapid_payload_vector)) = 44"
  by code_simp

section \<open>Graph score\<close>



lemma calculateGraphScore_examples:
  "calculateGraphScore pair_engine ''198.51.100.1''
     = \<lparr>g_score = 30,
        g_details = Some \<lparr>d_pagerank = 3 / 40, d_centrality = 0, d_clusterDensity = 0,
                          d_neighbors = 0\<rparr>\<rparr>
   \<and> calculateGraphScore pair_engine ''192.0.2.9'' = \<lparr>g_score = 0, g_details = None\<rparr>"
proof -
  have pr: "calculatePageRank_default pair_engine = [(''a'', 3 / 40), (''b'', 3 / 40)]"
    unfolding calculatePageRank_default_def by code_simp
  have nodes: "map snd (nodes pair_engine) =
      [\<lparr>node_id = ''a'', entity_type = ''IP'', entity_value = ''198.51.100.1''\<rparr>,
       \<lparr>node_id = ''b'', entity_type = ''IP'', entity_value = ''198.51.100.2''\<rparr>]"
    by (simp add: pair_engine_def)
  have nb: "neighbors_of pair_engine ''a'' = []"
    by (simp add: neighbors_of_def pair_engine_def)
  have ce: "calculateCentrality pair_engine = [(''a'', 0), (''b'', 0)]"
    by (simp add: calculateCentrality_def neighbors_of_def pair_engine_def)
  show ?thesis
    by (simp add: calculateGraphScore_def nodes pr nb ce calculateClusterDensity_def obj_get_def
          js_round_def Let_def)
qed

section \<open>PageRank\<close>

lemma inner_foldl:
  "foldl (\<lambda>sum otherId.
            (case find (\<lambda>n. target n = v) (neighbors_of st otherId) of
                  None \<Rightarrow> sum
                | Some pointsToNode \<Rightarrow>
                     (if length (neighbors_of st otherId) > 0
                        then sum + obj_get pr otherId / real (length (neighbors_of st otherId))
                        else sum))) a us
   = a + sum_list (map (inflow st pr v) us)"
proof (induction us arbitrary: a)
  case Nil
  show ?case by simp
next
  case (Cons u us)
  show ?case
  proof (cases "find (\<lambda>n. target n = v) (neighbors_of st u)")
    case None
    then have "v \<notin> target ` set (neighbors_of st u)"
      by (auto simp: find_None_iff)
    with None show ?thesis by (simp add: Cons.IH inflow_def)
  next
    case (Some nb)
    then have "nb \<in> set (neighbors_of st u)" "target nb = v"
      by (auto simp: find_Some_iff)
    then have "v \<in> target ` set (neighbors_of st u)" "0 < length (neighbors_of st u)"
      by (auto simp: length_greater_0_conv)
    with Some show ?thesis by (simp add: Cons.IH inflow_def)
  qed
qed

lemma pagerank_pass_eq:
  "pagerank_pass st ids d pr =
     map (\<lambda>v. (v, (1 - d) / real (length ids) + d * sum_list (map (inflow st pr v) ids))) ids"
  unfolding pagerank_pass_def Let_def by (simp add: inner_foldl)

lemma update_tabulate:
  "distinct ids \<Longrightarrow> k \<in> set ids \<Longrightarrow>
   AList.update k v (map (\<lambda>i. (i, f i)) ids) = map (\<lambda>i. (i, (f(k := v)) i)) ids"
  by (induction ids) auto

lemma obj_assign_tabulate:
  assumes "distinct ids"
  shows "set ks \<subseteq> set ids \<Longrightarrow>
   obj_assign (map (\<lambda>i. (i, f i)) ids) (map (\<lambda>i. (i, g i)) ks)
     = map (\<lambda>i. (i, if i \<in> set ks then g i else f i)) ids"
proof (induction ks rule: rev_induct)
  case Nil
  show ?case by (simp add: obj_assign_def)
next
  case (snoc k ks)
  then have "obj_assign (map (\<lambda>i. (i, f i)) ids) (map (\<lambda>i. (i, g i)) ks)
     = map (\<lambda>i. (i, if i \<in> set ks then g i else f i)) ids" by simp
  then have "obj_assign (map (\<lambda>i. (i, f i)) ids) (map (\<lambda>i. (i, g i)) (ks @ [k]))
     = AList.update k (g k) (map (\<lambda>i. (i, if i \<in> set ks then g i else f i)) ids)"
    by (simp add: obj_assign_def)
  also have "\<dots> = map (\<lambda>i. (i, ((\<lambda>i. if i \<in> set ks then g i else f i)(k := g k)) i)) ids"
    using snoc.prems assms by (intro update_tabulate) simp_all
  also have "\<dots> = map (\<lambda>i. (i, if i \<in> set (ks @ [k]) then g i else f i)) ids"
    by (intro map_cong) auto
  finally show ?case .
qed

lemma obj_get_tabulate: "u \<in> set ids \<Longrightarrow> obj_get (map (\<lambda>i. (i, f i)) ids) u = f u"
  by (simp add: obj_get_def map_of_map_restrict)

lemma inflow_total:
  assumes ne: "neighbors_of st u \<noteq> []"
    and dist: "distinct (map target (neighbors_of st u))"
    and sub: "target ` set (neighbors_of st u) \<subseteq> S" and fin: "finite S"
  shows "(\<Sum>v \<in> S. inflow st pr v u) = obj_get pr u"
proof -
  let ?T = "target ` set (neighbors_of st u)"
  have card: "card ?T = length (neighbors_of st u)"
    using dist distinct_card [of "map target (neighbors_of st u)"] by simp
  have "(\<Sum>v \<in> S. inflow st pr v u)
          = (\<Sum>v \<in> S \<inter> ?T. obj_get pr u / real (length (neighbors_of st u)))"
    unfolding inflow_def using fin by (simp add: sum.inter_restrict [symmetric])
  also have "S \<inter> ?T = ?T" using sub by blast
  also have "(\<Sum>v \<in> ?T. obj_get pr u / real (length (neighbors_of st u))) = obj_get pr u"
    using ne by (simp add: card)
  finally show ?thesis .
qed

lemma pass_sum:
  assumes dist: "distinct ids" and ne: "ids \<noteq> []"
    and ok: "\<forall>u \<in> set ids. neighbors_of st u \<noteq> [] \<and> distinct (map target (neighbors_of st u))
               \<and> target ` set (neighbors_of st u) \<subseteq> set ids"
  shows "sum_list (map snd (pagerank_pass st ids d (map (\<lambda>i. (i, f i)) ids)))
           = (1 - d) + d * sum_list (map f ids)"
proof -
  let ?pr = "map (\<lambda>i. (i, f i)) ids"
  have "sum_list (map (\<lambda>v. sum_list (map (inflow st ?pr v) ids)) ids)
          = (\<Sum>v \<in> set ids. \<Sum>u \<in> set ids. inflow st ?pr v u)"
    using dist by (simp add: sum_list_distinct_conv_sum_set)
  also have "\<dots> = (\<Sum>u \<in> set ids. \<Sum>v \<in> set ids. inflow st ?pr v u)"
    by (rule sum.swap)
  also have "\<dots> = (\<Sum>u \<in> set ids. obj_get ?pr u)"
    using ok by (intro sum.cong refl inflow_total) auto
  also have "\<dots> = (\<Sum>u \<in> set ids. f u)"
    by (intro sum.cong refl obj_get_tabulate)
  also have "\<dots> = sum_list (map f ids)"
    using dist by (simp add: sum_list_distinct_conv_sum_set)
  finally have inner: "sum_list (map (\<lambda>v. sum_list (map (inflow st ?pr v) ids)) ids)
      = sum_list (map f ids)" .
  have "sum_list (map snd (pagerank_pass st ids d ?pr))
      = sum_list (map (\<lambda>v. (1 - d) / real (length ids) + d * sum_list (map (inflow st ?pr v) ids)) ids)"
    by (simp add: pagerank_pass_eq comp_def)
  also have "\<dots> = sum_list (map (\<lambda>v. (1 - d) / real (length ids)) ids)
      + d * sum_list (map (\<lambda>v. sum_list (map (inflow st ?pr v) ids)) ids)"
    by (simp add: sum_list_addf sum_list_const_mult)
  also have "sum_list (map (\<lambda>v. (1 - d) / real (length ids)) ids) = 1 - d"
    using ne by (simp add: sum_list_triv)
  finally show ?thesis using inner by simp
qed

lemma loop_sum:
  assumes dist: "distinct ids" and ne: "ids \<noteq> []"
    and ok: "\<forall>u \<in> set ids. neighbors_of st u \<noteq> [] \<and> distinct (map target (neighbors_of st u))
               \<and> target ` set (neighbors_of st u) \<subseteq> set ids"
    and "sum_list (map f ids) = 1"
  shows "\<exists>g. pagerank_loop k st ids d (map (\<lambda>i. (i, f i)) ids) = map (\<lambda>i. (i, g i)) ids
            \<and> sum_list (map g ids) = 1"
  using assms(4)
proof (induction k arbitrary: f)
  case 0
  then show ?case by auto
next
  case (Suc k)
  let ?pr = "map (\<lambda>i. (i, f i)) ids"
  let ?g = "\<lambda>v. (1 - d) / real (length ids) + d * sum_list (map (inflow st ?pr v) ids)"
  have new: "pagerank_pass st ids d ?pr = map (\<lambda>i. (i, ?g i)) ids"
    by (simp add: pagerank_pass_eq)
  have "obj_assign ?pr (pagerank_pass st ids d ?pr) = map (\<lambda>i. (i, if i \<in> set ids then ?g i else f i)) ids"
    unfolding new using dist by (intro obj_assign_tabulate) simp_all
  also have "\<dots> = map (\<lambda>i. (i, ?g i)) ids"
    by (intro map_cong) auto
  finally have assign: "obj_assign ?pr (pagerank_pass st ids d ?pr) = map (\<lambda>i. (i, ?g i)) ids" .
  have "sum_list (map ?g ids) = sum_list (map snd (pagerank_pass st ids d ?pr))"
    unfolding new by (simp add: comp_def)
  also have "\<dots> = 1" using pass_sum [OF dist ne ok, of d f] Suc.prems by simp
  finally have "sum_list (map ?g ids) = 1" .
  from Suc.IH [OF this] show ?case
    by (simp add: assign)
qed

text \<open>
  \<^bold>\<open>C2, as stated, fails.\<close> A node without outgoing edges passes no rank on. For two
  nodes and no edge, every pass leaves \<open>0.15 / 2\<close> on each node, and after the 20
  default iterations the ranks sum to \<open>0.15\<close>.
\<close>

theorem pagerank_sum_counterexample:
  "nodes pair_engine \<noteq> []
   \<and> sum_list (map snd (calculatePageRank_default pair_engine)) = 3 / 20
   \<and> \<bar>sum_list (map snd (calculatePageRank_default pair_engine)) - 1\<bar> > 8 / 10"
proof -
  have "sum_list (map snd (calculatePageRank_default pair_engine)) = 3 / 20"
    unfolding calculatePageRank_default_def by code_simp
  then show ?thesis by (simp add: pair_engine_def)
qed

text \<open>
  \<^bold>\<open>C2, amended.\<close> For a non-empty snapshot in which every node has at least one outgoing
  edge, every edge leads to a node of the snapshot and no node has two edges to the same
  target, the PageRank values keep the node identifiers and sum to 1 after any number of
  iterations and for any damping factor, in particular after the 20 default iterations
  with damping \<open>0.85\<close>. The sum is exact in real arithmetic.
\<close>

theorem pagerank_sum_closed:
  assumes "closed_simple st" "nodes st \<noteq> []"
  shows "sum_list (map snd (calculatePageRank st k d)) = 1
       \<and> map fst (calculatePageRank st k d) = map fst (nodes st)
       \<and> sum_list (map snd (calculatePageRank_default st)) = 1"
proof -
  have "sum_list (map snd (calculatePageRank st k d)) = 1
       \<and> map fst (calculatePageRank st k d) = map fst (nodes st)" for k d
  proof -
  define ids where "ids = map fst (nodes st)"
  have dist: "distinct ids" and ne: "ids \<noteq> []"
    using assms by (simp_all add: closed_simple_def ids_def)
  have ok: "\<forall>u \<in> set ids. neighbors_of st u \<noteq> [] \<and> distinct (map target (neighbors_of st u))
               \<and> target ` set (neighbors_of st u) \<subseteq> set ids"
    using assms(1) unfolding closed_simple_def ids_def list_all_iff by auto
  have init: "sum_list (map (\<lambda>i. 1 / real (length ids)) ids) = 1"
    using ne by (simp add: sum_list_triv)
  from loop_sum [OF dist ne ok init, of k d]
  obtain g where g: "pagerank_loop k st ids d (map (\<lambda>i. (i, 1 / real (length ids))) ids)
      = map (\<lambda>i. (i, g i)) ids" "sum_list (map g ids) = 1"
    by blast
  have "calculatePageRank st k d = map (\<lambda>i. (i, g i)) ids"
    using ne g(1) unfolding calculatePageRank_def Let_def ids_def [symmetric] by simp
    then show ?thesis using g(2) by (simp add: comp_def ids_def)
  qed
  then show ?thesis unfolding calculatePageRank_default_def by blast
qed

theorem pagerank_sum_closed_witness:
  "closed_simple ring_engine \<and> nodes ring_engine \<noteq> []
   \<and> calculatePageRank_default ring_engine = [(''a'', 1 / 2), (''b'', 1 / 2)]
   \<and> sum_list (map snd (calculatePageRank_default ring_engine)) = 1"
proof -
  have c: "closed_simple ring_engine"
    by (simp add: closed_simple_def ring_engine_def neighbors_of_def)
  have n: "nodes ring_engine \<noteq> []"
    by (simp add: ring_engine_def)
  have v: "calculatePageRank_default ring_engine = [(''a'', 1 / 2), (''b'', 1 / 2)]"
    unfolding calculatePageRank_default_def by code_simp
  from pagerank_sum_closed [OF c n] c n v show ?thesis by blast
qed

section \<open>Entropy\<close>












text \<open>
  An event type named like a member of \<open>Object.prototype\<close> is not counted: its entry is
  a string, the total is a string, and the entropy is \<open>0\<close> whatever the other types are.
\<close>

lemma calculateEventTypeDiversity_inherited_key:
  "calculateEventTypeDiversity inherited_type_events = 0
   \<and> map snd (count_keys string_key (map event_type inherited_type_events))
       = [Text, Count 1]"
  by (simp add: calculateEventTypeDiversity_def inherited_type_events_def count_keys_def
        string_key_def object_members_def calculateEntropy_def)

section \<open>Outcomes of feature extraction\<close>

text \<open>
  \<^bold>\<open>C3, as stated, fails.\<close> For an indicator that exists and has no events,
  \<open>extractFeatures\<close> returns an ordinary feature object, not a result that says there is
  no data.
\<close>

theorem extractFeatures_no_events_counterexample:
  "extractFeatures 0 (Inr []) (Inr (Some quiet_indicator))
     = Some \<lparr>event_frequency = 0, time_between_events = 0, event_rate_per_minute = 0,
             event_rate_per_hour = 0, unique_event_types = 0, event_type_diversity = 0,
             port_scan_entropy = 0, geo_risk_score = 0, unique_geolocations = 0,
             unique_ports = 0, avg_payload_size = 0, payload_variance = 0,
             event_count_zscore = - 5 / 2, confidence_score = 1 / 2, blacklist_score = 0,
             dns_entropy = 0\<rparr>"
  by (simp add: extractFeatures_def quiet_indicator_def calculateEventFrequency_def
       calculateTimeBetweenEvents_def calculateEventRate_def countUniqueEventTypes_def
       calculateEventTypeDiversity_def calculatePortEntropy_def calculateGeoRiskScore_def
       countUniqueGeolocations_def countUniquePorts_def calculateAvgPayloadSize_def
       calculatePayloadVariance_def calculateZScore_def calculateBlacklistScore_def
       calculateDNSEntropy_def payloads_of_def)

text \<open>
  \<^bold>\<open>C3, amended.\<close> \<open>extractFeatures\<close> returns \<open>null\<close> exactly when one of its two queries
  is rejected or no indicator has the identifier; a storage error therefore never yields
  a feature object. For an existing indicator without events it returns the feature
  object whose event-derived features are all \<open>0\<close>, with z-score \<open>-2.5\<close>, the stored
  confidence and the indicator's denylist score.
\<close>

theorem extractFeatures_outcomes:
  "(extractFeatures now er ir = None) = (isl er \<or> isl ir \<or> ir = Inr None)
   \<and> extractFeatures now (Inr []) (Inr (Some ind))
     = Some \<lparr>event_frequency = 0, time_between_events = 0, event_rate_per_minute = 0,
             event_rate_per_hour = 0, unique_event_types = 0, event_type_diversity = 0,
             port_scan_entropy = 0, geo_risk_score = 0, unique_geolocations = 0,
             unique_ports = 0, avg_payload_size = 0, payload_variance = 0,
             event_count_zscore = - 5 / 2, confidence_score = confidence ind,
             blacklist_score = calculateBlacklistScore ind, dns_entropy = 0\<rparr>"
proof -
  have "(extractFeatures now er ir = None) = (isl er \<or> isl ir \<or> ir = Inr None)"
    by (cases er; cases ir) (auto simp: extractFeatures_def split: option.splits)
  moreover have "extractFeatures now (Inr []) (Inr (Some ind))
     = Some \<lparr>event_frequency = 0, time_between_events = 0, event_rate_per_minute = 0,
             event_rate_per_hour = 0, unique_event_types = 0, event_type_diversity = 0,
             port_scan_entropy = 0, geo_risk_score = 0, unique_geolocations = 0,
             unique_ports = 0, avg_payload_size = 0, payload_variance = 0,
             event_count_zscore = - 5 / 2, confidence_score = confidence ind,
             blacklist_score = calculateBlacklistScore ind, dns_entropy = 0\<rparr>"
    by (simp add: extractFeatures_def calculateEventFrequency_def
       calculateTimeBetweenEvents_def calculateEventRate_def countUniqueEventTypes_def
       calculateEventTypeDiversity_def calculatePortEntropy_def calculateGeoRiskScore_def
       countUniqueGeolocations_def countUniquePorts_def calculateAvgPayloadSize_def
       calculatePayloadVariance_def calculateZScore_def
       calculateDNSEntropy_def payloads_of_def)
  ultimately show ?thesis by simp
qed

section \<open>Community detection\<close>

lemma pushed_set:
  "set (map target (filter (\<lambda>nb. target nb \<notin> S \<and> weight nb > 1 / 2) (neighbors_of st n)))
     = heavy_edges st `` {n} - S"
  by (auto simp: heavy_edges_def)

lemma bfs_result:
  "\<exists>X. bfs st q V C = (V @ X, C @ X) \<and> distinct X \<and> set X \<inter> set V = {}
       \<and> set q \<subseteq> set V \<union> set X
       \<and> set X \<subseteq> (heavy_edges st)\<^sup>* `` set q
       \<and> heavy_edges st `` set X \<subseteq> set V \<union> set X"
proof (induction st q V C rule: bfs.induct)
  case (1 st visited community)
  show ?case by simp
next
  case (2 st n queue visited community)
  show ?case
  proof (cases "n \<in> set visited")
    case True
    with 2(1) obtain X where X: "bfs st queue visited community = (visited @ X, community @ X)"
        "distinct X" "set X \<inter> set visited = {}" "set queue \<subseteq> set visited \<union> set X"
        "set X \<subseteq> (heavy_edges st)\<^sup>* `` set queue"
        "heavy_edges st `` set X \<subseteq> set visited \<union> set X"
      by blast
    have "set X \<subseteq> (heavy_edges st)\<^sup>* `` set (n # queue)"
      using X(5) by auto
    moreover have "bfs st (n # queue) visited community = (visited @ X, community @ X)"
      using True X(1) by simp
    moreover have "set (n # queue) \<subseteq> set visited \<union> set X"
      using True X(4) by auto
    ultimately show ?thesis using X(2,3,6) by blast
  next
    case False
    define V1 where "V1 = visited @ [n]"
    define P where "P = map target
        (filter (\<lambda>nb. target nb \<notin> set V1 \<and> weight nb > 1 / 2) (neighbors_of st n))"
    from 2(2) [OF False V1_def P_def]
    obtain Y where Y: "bfs st (queue @ P) V1 (community @ [n]) = (V1 @ Y, (community @ [n]) @ Y)"
        "distinct Y" "set Y \<inter> set V1 = {}" "set (queue @ P) \<subseteq> set V1 \<union> set Y"
        "set Y \<subseteq> (heavy_edges st)\<^sup>* `` set (queue @ P)"
        "heavy_edges st `` set Y \<subseteq> set V1 \<union> set Y"
      by blast
    have P: "set P = heavy_edges st `` {n} - set V1"
      unfolding P_def by (rule pushed_set)
    have eq: "bfs st (n # queue) visited community = (visited @ n # Y, community @ n # Y)"
      using False Y(1) by (simp add: V1_def P_def Let_def)
    have d: "distinct (n # Y)" using Y(2,3) by (auto simp: V1_def)
    have i: "set (n # Y) \<inter> set visited = {}" using False Y(3) by (auto simp: V1_def)
    have s: "set (n # queue) \<subseteq> set visited \<union> set (n # Y)"
      using Y(4) by (auto simp: V1_def)
    have r: "set (n # Y) \<subseteq> (heavy_edges st)\<^sup>* `` set (n # queue)"
    proof
      fix y assume "y \<in> set (n # Y)"
      then consider "y = n" | "y \<in> set Y" by auto
      then show "y \<in> (heavy_edges st)\<^sup>* `` set (n # queue)"
      proof cases
        case 1
        then show ?thesis by auto
      next
        case 2
        with Y(5) obtain x where x: "x \<in> set (queue @ P)" "(x, y) \<in> (heavy_edges st)\<^sup>*"
          by blast
        show ?thesis
        proof (cases "x \<in> set queue")
          case True
          with x(2) show ?thesis by auto
        next
          case False
          with x(1) have "x \<in> set P" by simp
          then have "(n, x) \<in> heavy_edges st" using P by blast
          from this x(2) have "(n, y) \<in> (heavy_edges st)\<^sup>*"
            by (rule converse_rtrancl_into_rtrancl)
          then show ?thesis by auto
        qed
      qed
    qed
    have c: "heavy_edges st `` set (n # Y) \<subseteq> set visited \<union> set (n # Y)"
    proof -
      have "heavy_edges st `` {n} \<subseteq> set V1 \<union> set P" using P by blast
      also have "\<dots> \<subseteq> set V1 \<union> set Y" using Y(4) by auto
      finally have "heavy_edges st `` {n} \<subseteq> set V1 \<union> set Y" .
      with Y(6) have "heavy_edges st `` set (n # Y) \<subseteq> set V1 \<union> set Y" by auto
      then show ?thesis by (auto simp: V1_def)
    qed
    from eq d i s r c show ?thesis by blast
  qed
qed

lemma bfs_start:
  assumes "n \<notin> set V"
  shows "\<exists>Y. bfs st [n] V [] = (V @ n # Y, n # Y) \<and> distinct (n # Y) \<and> set (n # Y) \<inter> set V = {}
       \<and> set (n # Y) \<subseteq> (heavy_edges st)\<^sup>* `` {n}
       \<and> heavy_edges st `` set (n # Y) \<subseteq> set V \<union> set (n # Y)"
proof -
  from bfs_result [of st "[n]" V "[]"]
  obtain X where X: "bfs st [n] V [] = (V @ X, X)" "distinct X" "set X \<inter> set V = {}"
      "set [n] \<subseteq> set V \<union> set X" "set X \<subseteq> (heavy_edges st)\<^sup>* `` set [n]"
      "heavy_edges st `` set X \<subseteq> set V \<union> set X"
    by auto
  define P where "P = map target
        (filter (\<lambda>nb. target nb \<notin> set (V @ [n]) \<and> weight nb > 1 / 2) (neighbors_of st n))"
  from bfs_result [of st P "V @ [n]" "[n]"]
  obtain Y where "bfs st P (V @ [n]) [n] = ((V @ [n]) @ Y, [n] @ Y)" by blast
  then have "bfs st [n] V [] = (V @ n # Y, n # Y)"
    using assms by (simp add: P_def Let_def)
  with X(1) have "X = n # Y" by simp
  with X show ?thesis by auto
qed

lemma reach_closed:
  assumes "r `` A \<subseteq> A" "x \<in> A"
  shows "r\<^sup>* `` {x} \<subseteq> A"
proof
  fix y assume "y \<in> r\<^sup>* `` {x}"
  then have "(x, y) \<in> r\<^sup>*" by simp
  then show "y \<in> A"
    using assms by (induction rule: rtrancl_induct) auto
qed

lemma community_step_inv:
  assumes inv: "communities_inv st S V Cs"
  shows "\<exists>V' Cs'. community_step st (V, Cs) n = (V', Cs')
          \<and> communities_inv st (insert n S) V' Cs' \<and> set V \<union> {n} \<subseteq> set V'
          \<and> set V' \<subseteq> set V \<union> (heavy_edges st)\<^sup>* `` {n}"
proof (cases "n \<in> set V")
  case True
  then have "community_step st (V, Cs) n = (V, Cs)" by (simp add: community_step_def)
  moreover have "communities_inv st (insert n S) V Cs"
    using inv unfolding communities_inv_def by blast
  ultimately show ?thesis using True by auto
next
  case False
  from bfs_start [OF False, of st]
  obtain Y where Y: "bfs st [n] V [] = (V @ n # Y, n # Y)" "distinct (n # Y)"
      "set (n # Y) \<inter> set V = {}" "set (n # Y) \<subseteq> (heavy_edges st)\<^sup>* `` {n}"
      "heavy_edges st `` set (n # Y) \<subseteq> set V \<union> set (n # Y)"
    by blast
  let ?X = "n # Y"
  from inv have V: "V = concat Cs" and dV: "distinct V" and ne: "[] \<notin> set Cs"
    and cl: "heavy_edges st `` set V \<subseteq> set V"
    and ex: "\<forall>i < length Cs. hd (Cs ! i) \<in> S
          \<and> set (Cs ! i) = (heavy_edges st)\<^sup>* `` {hd (Cs ! i)} - set (concat (take i Cs))"
    unfolding communities_inv_def by blast+
  have step: "community_step st (V, Cs) n = (V @ ?X, Cs @ [?X])"
    using False Y(1) by (simp add: community_step_def)
  have cl': "heavy_edges st `` set (V @ ?X) \<subseteq> set (V @ ?X)"
    using cl Y(5) by (auto simp: Image_Un)
  have "(heavy_edges st)\<^sup>* `` {n} \<subseteq> set (V @ ?X)"
    by (rule reach_closed [OF cl']) simp
  then have exact: "set ?X = (heavy_edges st)\<^sup>* `` {n} - set V"
    using Y(3,4) by auto
  have ex': "hd ((Cs @ [?X]) ! i) \<in> insert n S
          \<and> set ((Cs @ [?X]) ! i)
              = (heavy_edges st)\<^sup>* `` {hd ((Cs @ [?X]) ! i)} - set (concat (take i (Cs @ [?X])))"
    if "i < length (Cs @ [?X])" for i
  proof (cases "i < length Cs")
    case True
    with ex show ?thesis by (simp add: nth_append)
  next
    case False
    with that have "i = length Cs" by simp
    then show ?thesis using exact V by simp
  qed
  have "communities_inv st (insert n S) (V @ ?X) (Cs @ [?X])"
    unfolding communities_inv_def
    using V dV ne cl' Y(2,3) ex' by auto
  with step Y(4) show ?thesis by auto
qed

lemma communities_fold:
  assumes "communities_inv st S V Cs"
  shows "\<exists>V' Cs'. foldl (community_step st) (V, Cs) ids = (V', Cs')
          \<and> communities_inv st (S \<union> set ids) V' Cs' \<and> set V \<union> set ids \<subseteq> set V'
          \<and> set V' \<subseteq> set V \<union> (heavy_edges st)\<^sup>* `` set ids"
  using assms
proof (induction ids arbitrary: S V Cs)
  case Nil
  then show ?case by simp
next
  case (Cons n ids)
  from community_step_inv [OF Cons.prems, of n]
  obtain V1 Cs1 where s: "community_step st (V, Cs) n = (V1, Cs1)"
      "communities_inv st (insert n S) V1 Cs1" "set V \<union> {n} \<subseteq> set V1"
      "set V1 \<subseteq> set V \<union> (heavy_edges st)\<^sup>* `` {n}"
    by blast
  from Cons.IH [OF s(2)]
  obtain V' Cs' where f: "foldl (community_step st) (V1, Cs1) ids = (V', Cs')"
      "communities_inv st (insert n S \<union> set ids) V' Cs'" "set V1 \<union> set ids \<subseteq> set V'"
      "set V' \<subseteq> set V1 \<union> (heavy_edges st)\<^sup>* `` set ids"
    by blast
  have "foldl (community_step st) (V, Cs) (n # ids) = (V', Cs')"
    using s(1) f(1) by simp
  moreover have "communities_inv st (S \<union> set (n # ids)) V' Cs'"
    using f(2) by simp
  moreover have "set V \<union> set (n # ids) \<subseteq> set V'"
    using s(3) f(3) by auto
  moreover have "set V' \<subseteq> set V \<union> (heavy_edges st)\<^sup>* `` set (n # ids)"
    using s(4) f(4) by auto
  ultimately show ?case by blast
qed

lemma heavy_edge_target:
  assumes "(u, v) \<in> heavy_edges st"
  shows "v \<in> heavy_targets st"
proof -
  from assms obtain nb where nb: "nb \<in> set (neighbors_of st u)" "target nb = v"
      "weight nb > 1 / 2"
    by (auto simp: heavy_edges_def)
  from nb(1) obtain ns where ns: "map_of (graph st) u = Some ns" "nb \<in> set ns"
    by (cases "map_of (graph st) u") (auto simp: neighbors_of_def)
  then have "(u, ns) \<in> set (graph st)" by (simp add: map_of_SomeD)
  then have "ns \<in> set (map snd (graph st))" by force
  moreover have "v \<in> target ` set (filter (\<lambda>nb. weight nb > 1 / 2) ns)"
    using ns(2) nb(2,3) by force
  ultimately show ?thesis unfolding heavy_targets_def by blast
qed

lemma heavy_reach_targets: "(heavy_edges st)\<^sup>* `` A \<subseteq> A \<union> heavy_targets st"
proof
  fix y assume "y \<in> (heavy_edges st)\<^sup>* `` A"
  then obtain x where "x \<in> A" "(x, y) \<in> (heavy_edges st)\<^sup>*" by blast
  from this(2,1) show "y \<in> A \<union> heavy_targets st"
    by (induction rule: rtrancl_induct) (auto dest: heavy_edge_target)
qed

lemma concat_disjoint:
  assumes "distinct (concat xs)" "[] \<notin> set xs" "i < length xs" "j < length xs" "i \<noteq> j"
  shows "set (xs ! i) \<inter> set (xs ! j) = {}"
proof -
  from assms(1,2) have d: "distinct xs"
    and dj: "\<And>ys zs. ys \<in> set xs \<Longrightarrow> zs \<in> set xs \<Longrightarrow> ys \<noteq> zs \<Longrightarrow> set ys \<inter> set zs = {}"
    by (auto simp: distinct_concat_iff removeAll_id)
  have "xs ! i \<noteq> xs ! j" using d assms(3-5) by (simp add: nth_eq_iff_index_eq)
  then show ?thesis using assms(3,4) by (intro dj) simp_all
qed

text \<open>
  \<^bold>\<open>C10, as stated, fails.\<close> The traversal queues the target of every edge of weight
  above \<open>0.5\<close> without looking whether it is a node. With one node and such an edge to
  an identifier that is no node, the only community holds that identifier too, so the
  communities do not partition the node set.
\<close>

theorem detectCommunities_partition_counterexample:
  "map fst (nodes ghost_engine) = [''a'']
   \<and> detectCommunities ghost_engine = [[''a'', ''ghost'']]
   \<and> set (concat (detectCommunities ghost_engine)) \<noteq> set (map fst (nodes ghost_engine))"
proof -
  have v: "detectCommunities ghost_engine = [[''a'', ''ghost'']]"
    by (simp add: detectCommunities_def community_step_def ghost_engine_def neighbors_of_def)
  have n: "map fst (nodes ghost_engine) = [''a'']"
    by (simp add: ghost_engine_def)
  show ?thesis unfolding v n by auto
qed

text \<open>
  \<^bold>\<open>C10, amended.\<close> The communities returned are non-empty and pairwise disjoint, and
  every node of the snapshot lies in exactly one of them. Beside the nodes they hold
  only targets of edges of weight above \<open>0.5\<close>; when every such edge leads to a node of
  the snapshot, their union is the node set, and they partition it. Each community
  begins with a node of the snapshot and consists of exactly the identifiers that can
  be reached from it along edges of weight above \<open>0.5\<close> and are not in an earlier
  community.
\<close>

theorem detectCommunities_partition:
  "distinct (concat (detectCommunities st))
   \<and> [] \<notin> set (detectCommunities st)
   \<and> set (map fst (nodes st)) \<subseteq> set (concat (detectCommunities st))
   \<and> set (concat (detectCommunities st)) \<subseteq> set (map fst (nodes st)) \<union> heavy_targets st
   \<and> (heavy_targets st \<subseteq> set (map fst (nodes st))
        \<longrightarrow> set (concat (detectCommunities st)) = set (map fst (nodes st)))
   \<and> (\<forall>n \<in> set (map fst (nodes st)).
         \<exists>!i. i < length (detectCommunities st) \<and> n \<in> set (detectCommunities st ! i))
   \<and> (\<forall>i < length (detectCommunities st).
         hd (detectCommunities st ! i) \<in> set (map fst (nodes st))
       \<and> set (detectCommunities st ! i)
           = (heavy_edges st)\<^sup>* `` {hd (detectCommunities st ! i)}
             - set (concat (take i (detectCommunities st))))"
proof -
  define ids where "ids = map fst (nodes st)"
  have "communities_inv st {} [] []" by (simp add: communities_inv_def)
  from communities_fold [OF this, of ids]
  obtain V Cs where f: "foldl (community_step st) ([], []) ids = (V, Cs)"
      "communities_inv st (set ids) V Cs" "set ids \<subseteq> set V"
      "set V \<subseteq> (heavy_edges st)\<^sup>* `` set ids"
    by auto
  have cs: "detectCommunities st = Cs"
    by (simp add: detectCommunities_def f(1) ids_def [symmetric])
  from f(2) have V: "V = concat Cs" and dV: "distinct V" and ne: "[] \<notin> set Cs"
    and ex: "\<forall>i < length Cs. hd (Cs ! i) \<in> set ids
          \<and> set (Cs ! i) = (heavy_edges st)\<^sup>* `` {hd (Cs ! i)} - set (concat (take i Cs))"
    unfolding communities_inv_def by blast+
  have cover: "set ids \<subseteq> set (concat Cs)" using f(3) V by simp
  have within: "set (concat Cs) \<subseteq> set ids \<union> heavy_targets st"
    using f(4) heavy_reach_targets [of st "set ids"] V by blast
  have uniq: "\<exists>!i. i < length Cs \<and> n \<in> set (Cs ! i)" if "n \<in> set ids" for n
  proof -
    from that cover have "n \<in> set (concat Cs)" by blast
    then obtain c where "c \<in> set Cs" "n \<in> set c" by auto
    then obtain i where i: "i < length Cs" "n \<in> set (Cs ! i)"
      by (auto simp: in_set_conv_nth)
    have "j = i" if "j < length Cs" "n \<in> set (Cs ! j)" for j
    proof (rule ccontr)
      assume "j \<noteq> i"
      from concat_disjoint [OF dV [unfolded V] ne that(1) i(1) this] that(2) i(2)
      show False by blast
    qed
    with i show ?thesis by blast
  qed
  show ?thesis
    unfolding cs ids_def [symmetric]
  proof (intro conjI)
    show "distinct (concat Cs)" using dV V by simp
    show "[] \<notin> set Cs" by (rule ne)
    show "set ids \<subseteq> set (concat Cs)" by (rule cover)
    show "set (concat Cs) \<subseteq> set ids \<union> heavy_targets st" by (rule within)
    show "heavy_targets st \<subseteq> set ids \<longrightarrow> set (concat Cs) = set ids"
      using cover within by blast
    show "\<forall>n \<in> set ids. \<exists>!i. i < length Cs \<and> n \<in> set (Cs ! i)"
      using uniq by blast
    show "\<forall>i < length Cs. hd (Cs ! i) \<in> set ids
          \<and> set (Cs ! i) = (heavy_edges st)\<^sup>* `` {hd (Cs ! i)} - set (concat (take i Cs))"
      by (rule ex)
  qed
qed

theorem detectCommunities_partition_witness:
  "detectCommunities trio_engine = [[''a'', ''b''], [''c'']]
   \<and> map fst (nodes trio_engine) = [''a'', ''b'', ''c'']
   \<and> heavy_targets trio_engine = {''a'', ''b''}
   \<and> set (concat (detectCommunities trio_engine)) = set (map fst (nodes trio_engine))
   \<and> distinct (concat (detectCommunities trio_engine))
   \<and> (\<exists>!i. i < length (detectCommunities trio_engine)
            \<and> ''b'' \<in> set (detectCommunities trio_engine ! i))
   \<and> set [''c''] = (heavy_edges trio_engine)\<^sup>* `` {''c''} - set [''a'', ''b'']"
proof -
  have v: "detectCommunities trio_engine = [[''a'', ''b''], [''c'']]"
    by (simp add: detectCommunities_def community_step_def trio_engine_def neighbors_of_def)
  have n: "map fst (nodes trio_engine) = [''a'', ''b'', ''c'']"
    by (simp add: trio_engine_def)
  have h: "heavy_targets trio_engine = {''a'', ''b''}"
    by (auto simp: heavy_targets_def trio_engine_def)
  then have sub: "heavy_targets trio_engine \<subseteq> set (map fst (nodes trio_engine))"
    by (simp add: n)
  note p = detectCommunities_partition [of trio_engine]
  from p have d: "distinct (concat (detectCommunities trio_engine))"
    by (rule conjunct1)
  from p sub have q: "set (concat (detectCommunities trio_engine))
      = set (map fst (nodes trio_engine))"
    by blast
  from p have u: "\<forall>n \<in> set (map fst (nodes trio_engine)).
      \<exists>!i. i < length (detectCommunities trio_engine) \<and> n \<in> set (detectCommunities trio_engine ! i)"
    by blast
  have b: "''b'' \<in> set (map fst (nodes trio_engine))" by (simp add: n)
  from p have e: "\<forall>i < length (detectCommunities trio_engine).
         hd (detectCommunities trio_engine ! i) \<in> set (map fst (nodes trio_engine))
       \<and> set (detectCommunities trio_engine ! i)
           = (heavy_edges trio_engine)\<^sup>* `` {hd (detectCommunities trio_engine ! i)}
             - set (concat (take i (detectCommunities trio_engine)))"
    by blast
  have "set ([[''a'', ''b''], [''c'']] ! 1)
           = (heavy_edges trio_engine)\<^sup>* `` {hd ([[''a'', ''b''], [''c'']] ! 1)}
             - set (concat (take 1 [[''a'', ''b''], [''c'']]))"
    using e [rule_format, of 1] unfolding v by simp
  then have x: "set [''c''] = (heavy_edges trio_engine)\<^sup>* `` {''c''} - set [''a'', ''b'']"
    by simp
  from v n h q d u [rule_format, OF b] x show ?thesis by blast
qed

end
